theory Spec2Isabelle
  imports
    Main
    "HOL-Library.AList"
    "HOL-Library.Sublist"
    "HOL-Library.Multiset"
    "HOL-Library.Char_ord"
    "HOL-Library.List_Lexorder"
    "HOL-Library.Product_Lexorder"
begin

section \<open>Python values\<close>

text \<open>
  A Python \<open>str\<close> is a \<^typ>\<open>string\<close>: the characters of the program's own literals
  and of ASCII text one for one, any other character as the bytes of its UTF-8 form.
  A \<open>dict\<close> is an association list in insertion order; \<open>d[k] = v\<close> replaces the
  value of a key that is there, in its place, and appends a new key at the end.
\<close>

fun dict_set :: "'k \<Rightarrow> 'v \<Rightarrow> ('k \<times> 'v) list \<Rightarrow> ('k \<times> 'v) list" where
  "dict_set k v [] = [(k, v)]"
| "dict_set k v (p # d) = (if fst p = k then (k, v) # d else p # dict_set k v d)"

text \<open>\<open>d.update(m)\<close>: the items of \<open>m\<close>, in order, are stored into \<open>d\<close>.\<close>

definition dict_update :: "('k \<times> 'v) list \<Rightarrow> ('k \<times> 'v) list \<Rightarrow> ('k \<times> 'v) list" where
  "dict_update d m = fold (\<lambda>kv acc. dict_set (fst kv) (snd kv) acc) m d"

text \<open>
  The values a metadata mapping holds (\<open>Dict[str, Any]\<close>, what the JSON file can
  carry): floating-point numbers are left out.
\<close>

datatype json =
    JNull
  | JBool bool
  | JInt int
  | JStr string
  | JList "json list"
  | JDict "(string \<times> json) list"

definition NL :: string where
  "NL = [CHR 0x0A]"

text \<open>\<open>sep.join(xs)\<close>\<close>

fun join :: "string \<Rightarrow> string list \<Rightarrow> string" where
  "join sep [] = []"
| "join sep [x] = x"
| "join sep (x # y # ys) = x @ sep @ join sep (y # ys)"

text \<open>\<open>str(n)\<close> of a natural number, and the zero padding of \<open>%02d\<close> and \<open>%04d\<close>.\<close>

definition digit_char :: "nat \<Rightarrow> char" where
  "digit_char n = ''0123456789'' ! n"

fun str_nat :: "nat \<Rightarrow> string" where
  "str_nat n = (if n < 10 then [digit_char n] else str_nat (n div 10) @ [digit_char (n mod 10)])"

declare str_nat.simps [simp del]

definition zfill :: "nat \<Rightarrow> string \<Rightarrow> string" where
  "zfill w s = replicate (w - length s) (CHR ''0'') @ s"

text \<open>
  \<open>s.lower()\<close> is the library's: it works on Unicode text, and what it makes of a
  letter can depend on the letters around it (a capital sigma at the end of a word
  becomes a final sigma). The code that calls it takes it as the parameter
  \<open>str_lower\<close>. On ASCII text it is \<open>ascii_lower\<close>: the letters A to Z go to a to z
  and every other character stays.
\<close>

definition is_ascii :: "string \<Rightarrow> bool" where
  "is_ascii s = list_all (\<lambda>c. of_char c < (128 :: nat)) s"

definition lower_char :: "char \<Rightarrow> char" where
  "lower_char c =
     (case map_of (zip ''ABCDEFGHIJKLMNOPQRSTUVWXYZ'' ''abcdefghijklmnopqrstuvwxyz'') c of
        None \<Rightarrow> c
      | Some l \<Rightarrow> l)"

definition ascii_lower :: "string \<Rightarrow> string" where
  "ascii_lower s = map lower_char s"

text \<open>\<open>q in s\<close> on strings: \<open>q\<close> starts at some position of \<open>s\<close>.\<close>

fun py_in :: "string \<Rightarrow> string \<Rightarrow> bool" where
  "py_in q [] = (q = [])"
| "py_in q (c # s) = (prefix q (c # s) \<or> py_in q s)"

text \<open>
  \<open>sorted(xs, key=k, reverse=True)\<close>: Python reverses the list, sorts it stably in
  ascending order and reverses the result, so equal keys keep the order they came in.
\<close>

definition sorted_reverse :: "('a \<Rightarrow> 'k::linorder) \<Rightarrow> 'a list \<Rightarrow> 'a list" where
  "sorted_reverse k xs = rev (sort_key k (rev xs))"

section \<open>Timestamps\<close>

text \<open>
  A \<open>datetime\<close> in UTC, as \<open>datetime.now(timezone.utc)\<close> gives it. Two of them are
  compared field by field, the year first.
\<close>

record datetime =
  year :: nat
  month :: nat
  day :: nat
  hour :: nat
  minute :: nat
  second :: nat
  microsecond :: nat

definition dt_key :: "datetime \<Rightarrow> nat \<times> nat \<times> nat \<times> nat \<times> nat \<times> nat \<times> nat" where
  "dt_key t = (year t, month t, day t, hour t, minute t, second t, microsecond t)"

definition pad2 :: "nat \<Rightarrow> string" where
  "pad2 n = zfill 2 (str_nat n)"

definition pad4 :: "nat \<Rightarrow> string" where
  "pad4 n = zfill 4 (str_nat n)"

definition pad6 :: "nat \<Rightarrow> string" where
  "pad6 n = zfill 6 (str_nat n)"

text \<open>\<open>t.strftime('%Y%m%d_%H%M%S')\<close>\<close>

definition strftime_id :: "datetime \<Rightarrow> string" where
  "strftime_id t =
     pad4 (year t) @ pad2 (month t) @ pad2 (day t) @ ''_'' @
     pad2 (hour t) @ pad2 (minute t) @ pad2 (second t)"

text \<open>\<open>t.strftime('%Y-%m-%d %H:%M')\<close>\<close>

definition strftime_minute :: "datetime \<Rightarrow> string" where
  "strftime_minute t =
     pad4 (year t) @ ''-'' @ pad2 (month t) @ ''-'' @ pad2 (day t) @ '' '' @
     pad2 (hour t) @ '':'' @ pad2 (minute t)"

text \<open>\<open>t.strftime('%Y-%m-%d %H:%M:%S UTC')\<close>\<close>

definition strftime_utc :: "datetime \<Rightarrow> string" where
  "strftime_utc t = strftime_minute t @ '':'' @ pad2 (second t) @ '' UTC''"

text \<open>
  \<open>t.isoformat()\<close>: \<open>YYYY-MM-DDTHH:MM:SS+00:00\<close>, with \<open>.ffffff\<close> after the seconds
  when the microseconds are not zero.
\<close>

definition isoformat :: "datetime \<Rightarrow> string" where
  "isoformat t =
     pad4 (year t) @ ''-'' @ pad2 (month t) @ ''-'' @ pad2 (day t) @ ''T'' @
     pad2 (hour t) @ '':'' @ pad2 (minute t) @ '':'' @ pad2 (second t) @
     (if microsecond t = 0 then [] else ''.'' @ pad6 (microsecond t)) @ ''+00:00''"

section \<open>The data model\<close>

datatype ContextType = CONVERSATION | DECISION | PROJECT | TASK | INSIGHT | RELATIONSHIP

fun ContextType_value :: "ContextType \<Rightarrow> string" where
  "ContextType_value CONVERSATION = ''conversation''"
| "ContextType_value DECISION = ''decision''"
| "ContextType_value PROJECT = ''project''"
| "ContextType_value TASK = ''task''"
| "ContextType_value INSIGHT = ''insight''"
| "ContextType_value RELATIONSHIP = ''relationship''"

datatype Priority = CRITICAL | HIGH | MEDIUM | LOW

fun Priority_value :: "Priority \<Rightarrow> string" where
  "Priority_value CRITICAL = ''critical''"
| "Priority_value HIGH = ''high''"
| "Priority_value MEDIUM = ''medium''"
| "Priority_value LOW = ''low''"

text \<open>
  \<open>update_context\<close> changes a metadata dict in place (\<open>context.metadata.update\<close>),
  so an item holds the address of its dict and the dicts live in a heap: whether two
  items can hold the same dict is then a matter of proof. Tags and connections are only
  ever replaced as a whole (\<open>context.tags = tags\<close>), so an item holds them as values.
  The fields \<open>id\<close> and \<open>type\<close> of the source are \<open>ctx_id\<close> and \<open>ctx_type\<close> here.
\<close>

type_synonym ref = nat

record ContextItem =
  ctx_id :: string
  ctx_type :: ContextType
  title :: string
  content :: string
  priority :: Priority
  created_at :: datetime
  updated_at :: datetime
  tags :: "string list"
  connections :: "string list"
  metadata :: ref

text \<open>
  What \<open>json.load\<close> makes of the file \<open>context_store.json\<close>: it raises, or it
  returns a value.
\<close>

datatype store_file = Unparseable | Parsed json

text \<open>
  The state of the process: \<open>context_manager.contexts\<close>, the heap of metadata
  dicts with the next free address, and the file on disk (\<open>None\<close> when there is none).
\<close>

record state =
  contexts :: "(string \<times> ContextItem) list"
  heap :: "ref \<Rightarrow> (string \<times> json) list"
  next_ref :: ref
  disk :: "store_file option"

text \<open>
  A process that has just run the module's definitions, with \<open>d\<close> on disk. Address
  0 is the dict \<open>{}\<close> that the \<open>def\<close> of \<open>add_context\<close> has built as the default
  of its parameter \<open>metadata\<close>; the dicts made later take the addresses from 1 on.
\<close>

definition fresh_process :: "store_file option \<Rightarrow> state" where
  "fresh_process d = \<lparr>contexts = [], heap = (\<lambda>_. []), next_ref = 1, disk = d\<rparr>"

text \<open>A dict object of its own, as a caller's argument or \<open>json.load\<close> brings it.\<close>

definition new_dict :: "(string \<times> json) list \<Rightarrow> state \<Rightarrow> ref \<times> state" where
  "new_dict d s = (next_ref s, s\<lparr>heap := (heap s)(next_ref s := d), next_ref := Suc (next_ref s)\<rparr>)"

section \<open>ContextItem.to\_dict and ContextManager\<close>

text \<open>
  \<open>to_dict\<close>, as \<open>json.dump\<close> writes it: the fields in the order of the dataclass,
  the two timestamps through \<open>isoformat\<close>, type and priority as their string values.
\<close>

definition to_dict :: "(ref \<Rightarrow> (string \<times> json) list) \<Rightarrow> ContextItem \<Rightarrow> json" where
  "to_dict h c = JDict
     [(''id'', JStr (ctx_id c)),
      (''type'', JStr (ContextType_value (ctx_type c))),
      (''title'', JStr (title c)),
      (''content'', JStr (content c)),
      (''priority'', JStr (Priority_value (priority c))),
      (''created_at'', JStr (isoformat (created_at c))),
      (''updated_at'', JStr (isoformat (updated_at c))),
      (''tags'', JList (map JStr (tags c))),
      (''connections'', JList (map JStr (connections c))),
      (''metadata'', JDict (h (metadata c)))]"

text \<open>
  \<open>save_contexts\<close>: the whole mapping replaces the file. Opening and writing the file
  are taken to succeed.
\<close>

definition save_contexts :: "state \<Rightarrow> state" where
  "save_contexts s =
     s\<lparr>disk := Some (Parsed (JDict (map (\<lambda>kc. (fst kc, to_dict (heap s) (snd kc))) (contexts s))))\<rparr>"

definition ContextManager_add_context :: "ContextItem \<Rightarrow> state \<Rightarrow> state" where
  "ContextManager_add_context context s =
     save_contexts (s\<lparr>contexts := dict_set (ctx_id context) context (contexts s)\<rparr>)"

definition get_context :: "state \<Rightarrow> string \<Rightarrow> ContextItem option" where
  "get_context s context_id = map_of (contexts s) context_id"

text \<open>
  The loop of \<open>search_contexts\<close>, with \<open>results\<close> as its accumulator;
  \<open>str_lower\<close> is the library's \<open>str.lower\<close>.
\<close>

fun search_loop ::
  "(string \<Rightarrow> string) \<Rightarrow> string \<Rightarrow> ContextType option \<Rightarrow> ContextItem list \<Rightarrow>
   ContextItem list \<Rightarrow> ContextItem list" where
  "search_loop str_lower query_lower context_type [] results = results"
| "search_loop str_lower query_lower context_type (context # rest) results =
     (if (case context_type of None \<Rightarrow> False | Some t \<Rightarrow> ctx_type context \<noteq> t)
      then search_loop str_lower query_lower context_type rest results
      else if py_in query_lower (str_lower (title context)) \<or>
              py_in query_lower (str_lower (content context)) \<or>
              list_ex (\<lambda>tag. py_in query_lower (str_lower tag)) (tags context)
      then search_loop str_lower query_lower context_type rest (results @ [context])
      else search_loop str_lower query_lower context_type rest results)"

definition search_contexts ::
  "(string \<Rightarrow> string) \<Rightarrow> string \<Rightarrow> ContextType option \<Rightarrow> state \<Rightarrow> ContextItem list" where
  "search_contexts str_lower query context_type s =
     sorted_reverse (\<lambda>x. dt_key (updated_at x))
       (search_loop str_lower (str_lower query) context_type (map snd (contexts s)) [])"

section \<open>The tools\<close>

text \<open>The marks that open the tools' messages, as the bytes of the source file.\<close>

definition MARK_OK :: string where
  "MARK_OK = [CHR 0xC3, CHR 0xA2, CHR 0xC5, CHR 0x93, CHR 0xE2, CHR 0x80, CHR 0xA6]"

definition MARK_FAIL :: string where
  "MARK_FAIL = [CHR 0xC3, CHR 0xA2, CHR 0xC5, CHR 0x92]"

definition MARK_DETAILS :: string where
  "MARK_DETAILS =
     [CHR 0xC3, CHR 0xB0, CHR 0xC5, CHR 0xB8, CHR 0xE2, CHR 0x80, CHR 0x9C, CHR 0xE2, CHR 0x80, CHR 0x9E]"

definition MARK_STATS :: string where
  "MARK_STATS = [CHR 0xC3, CHR 0xB0, CHR 0xC5, CHR 0xB8, CHR 0xE2, CHR 0x80, CHR 0x9C, CHR 0xC5, CHR 0xA0]"

text \<open>
  \<open>add_context\<close>. \<open>now\<close> is the reading of the clock. An optional argument is
  \<open>None\<close> when the call omits it. The function is a tool (\<open>@mcp.tool\<close>): its name
  is bound to the tool object, and its body runs only for the tool calls that
  \<open>mcp.run()\<close> serves. The arguments of such a call are validated against the
  signature, and a parameter that the call omits gets a copy of its default, made for
  this call. So the metadata of the new item is a dict object of the call's own: the
  dict that was given, or an empty one.
\<close>

definition context_id_of :: "ContextType \<Rightarrow> datetime \<Rightarrow> string" where
  "context_id_of context_type now = ContextType_value context_type @ ''_'' @ strftime_id now"

definition add_context ::
  "datetime \<Rightarrow> string \<Rightarrow> string \<Rightarrow> ContextType option \<Rightarrow> Priority option \<Rightarrow>
   string list option \<Rightarrow> string list option \<Rightarrow> (string \<times> json) list option \<Rightarrow>
   state \<Rightarrow> string \<times> state" where
  "add_context now title' content' context_type' priority' tags' connections' metadata' s =
     (let context_type = (case context_type' of None \<Rightarrow> CONVERSATION | Some t \<Rightarrow> t);
          context_id = context_id_of context_type now;
          (m, s1) = (case metadata' of None \<Rightarrow> new_dict [] s | Some d \<Rightarrow> new_dict d s);
          context_item =
            \<lparr>ctx_id = context_id,
             ctx_type = context_type,
             title = title',
             content = content',
             priority = (case priority' of None \<Rightarrow> MEDIUM | Some p \<Rightarrow> p),
             created_at = now,
             updated_at = now,
             tags = (case tags' of None \<Rightarrow> [] | Some ts \<Rightarrow> ts),
             connections = (case connections' of None \<Rightarrow> [] | Some cs \<Rightarrow> cs),
             metadata = m\<rparr>
      in (MARK_OK @ '' Context '' @ [CHR 0x27] @ title' @ [CHR 0x27] @ '' added with ID: '' @ context_id,
          ContextManager_add_context context_item s1))"

text \<open>
  \<open>get_context_details\<close>. \<open>str_value\<close> is Python's \<open>str\<close> on a metadata value.
\<close>

definition get_context_details :: "(json \<Rightarrow> string) \<Rightarrow> state \<Rightarrow> string \<Rightarrow> string" where
  "get_context_details str_value s context_id =
     (case get_context s context_id of
        None \<Rightarrow> MARK_FAIL @ '' Context '' @ [CHR 0x27] @ context_id @ [CHR 0x27] @ '' not found''
      | Some context \<Rightarrow>
          join NL
            ([MARK_DETAILS @ '' Context Details: '' @ title context @ NL,
              ''**ID:** '' @ ctx_id context,
              ''**Type:** '' @ ContextType_value (ctx_type context),
              ''**Priority:** '' @ Priority_value (priority context),
              ''**Created:** '' @ strftime_utc (created_at context),
              ''**Updated:** '' @ strftime_utc (updated_at context)] @
             (if tags context \<noteq> [] then [''**Tags:** '' @ join '', '' (tags context)] else []) @
             (if connections context \<noteq> []
              then [''**Connected to:** '' @ join '', '' (connections context)] else []) @
             [NL @ ''**Content:**'' @ NL @ content context] @
             (if heap s (metadata context) \<noteq> []
              then (NL @ ''**Metadata:**'') #
                   map (\<lambda>kv. ''  '' @ fst kv @ '': '' @ str_value (snd kv)) (heap s (metadata context))
              else [])))"

text \<open>
  \<open>update_context\<close>: the item found is changed in place, and so is its metadata dict.
\<close>

definition update_context ::
  "datetime \<Rightarrow> string \<Rightarrow> string option \<Rightarrow> string option \<Rightarrow> Priority option \<Rightarrow>
   string list option \<Rightarrow> string list option \<Rightarrow> (string \<times> json) list option \<Rightarrow>
   state \<Rightarrow> string \<times> state" where
  "update_context now context_id title' content' priority' tags' connections' metadata' s =
     (case get_context s context_id of
        None \<Rightarrow> (MARK_FAIL @ '' Context '' @ [CHR 0x27] @ context_id @ [CHR 0x27] @ '' not found'', s)
      | Some context \<Rightarrow>
          (let c1 = (case title' of None \<Rightarrow> context | Some x \<Rightarrow> context\<lparr>title := x\<rparr>);
               c2 = (case content' of None \<Rightarrow> c1 | Some x \<Rightarrow> c1\<lparr>content := x\<rparr>);
               c3 = (case priority' of None \<Rightarrow> c2 | Some x \<Rightarrow> c2\<lparr>priority := x\<rparr>);
               c4 = (case tags' of None \<Rightarrow> c3 | Some x \<Rightarrow> c3\<lparr>tags := x\<rparr>);
               c5 = (case connections' of None \<Rightarrow> c4 | Some x \<Rightarrow> c4\<lparr>connections := x\<rparr>);
               h = (case metadata' of
                      None \<Rightarrow> heap s
                    | Some m \<Rightarrow> (heap s)(metadata c5 := dict_update (heap s (metadata c5)) m));
               c6 = c5\<lparr>updated_at := now\<rparr>
           in (MARK_OK @ '' Context '' @ [CHR 0x27] @ title c6 @ [CHR 0x27] @ '' updated successfully'',
               save_contexts (s\<lparr>contexts := dict_set context_id c6 (contexts s), heap := h\<rparr>))))"

text \<open>
  \<open>get_context_stats\<close>. The two counting loops are \<open>count_values\<close> over the
  type and the priority names.
\<close>

definition count_values :: "string list \<Rightarrow> (string \<times> nat) list" where
  "count_values vs =
     fold (\<lambda>v counts. dict_set v ((case map_of counts v of None \<Rightarrow> 0 | Some n \<Rightarrow> n) + 1) counts) vs []"

definition count_line :: "string \<times> nat \<Rightarrow> string" where
  "count_line p = ''  '' @ fst p @ '': '' @ str_nat (snd p)"

definition recent_line :: "ContextItem \<Rightarrow> string" where
  "recent_line context = ''  '' @ title context @ '' ('' @ strftime_minute (updated_at context) @ '')''"

definition get_context_stats :: "state \<Rightarrow> string" where
  "get_context_stats s =
     (let cs = map snd (contexts s) in
      if cs = [] then MARK_STATS @ '' Context store is empty''
      else
        (let type_counts = count_values (map (\<lambda>c. ContextType_value (ctx_type c)) cs);
             priority_counts = count_values (map (\<lambda>c. Priority_value (priority c)) cs);
             recent = take 3 (sorted_reverse (\<lambda>x. dt_key (updated_at x)) cs)
         in join NL
              ([MARK_STATS @ '' Context Store Statistics'' @ NL,
                ''**Total Contexts:** '' @ str_nat (length cs),
                NL @ ''**By Type:**''] @
               map count_line (sort type_counts) @
               [NL @ ''**By Priority:**''] @
               map count_line (sort priority_counts) @
               [NL @ ''**Most Recent:**''] @
               map recent_line recent)))"

section \<open>Loading the store\<close>

text \<open>
  What a piece of Python does: it raises, it returns, or it goes on with a value that
  the declared types do not have (\<open>Untyped\<close>; the model does not follow such a run).
\<close>

datatype exn = KeyError | TypeError | ValueError | AttributeError | JSONDecodeError

datatype 'a outcome = Raises exn | Returns 'a | Untyped

fun and_then :: "'a outcome \<Rightarrow> ('a \<Rightarrow> 'b outcome) \<Rightarrow> 'b outcome" where
  "and_then (Raises e) f = Raises e"
| "and_then (Returns x) f = f x"
| "and_then Untyped f = Untyped"

text \<open>\<open>data[k]\<close>: only a dict takes a string as its index.\<close>

fun getitem :: "json \<Rightarrow> string \<Rightarrow> json outcome" where
  "getitem (JDict d) k = (case map_of d k of None \<Rightarrow> Raises KeyError | Some v \<Rightarrow> Returns v)"
| "getitem _ k = Raises TypeError"

text \<open>
  \<open>datetime.fromisoformat(v)\<close>. The parser of the library is the parameter
  \<open>fromisoformat\<close>, \<open>None\<close> where it raises \<open>ValueError\<close>.
\<close>

fun call_fromisoformat :: "(string \<Rightarrow> datetime option) \<Rightarrow> json \<Rightarrow> datetime outcome" where
  "call_fromisoformat fromisoformat (JStr x) =
     (case fromisoformat x of None \<Rightarrow> Raises ValueError | Some t \<Rightarrow> Returns t)"
| "call_fromisoformat fromisoformat _ = Raises TypeError"

text \<open>\<open>ContextType(v)\<close> and \<open>Priority(v)\<close>: the member that has the value \<open>v\<close>.\<close>

fun ContextType_call :: "json \<Rightarrow> ContextType outcome" where
  "ContextType_call (JStr x) =
     (case find (\<lambda>t. ContextType_value t = x) [CONVERSATION, DECISION, PROJECT, TASK, INSIGHT, RELATIONSHIP] of
        None \<Rightarrow> Raises ValueError
      | Some t \<Rightarrow> Returns t)"
| "ContextType_call _ = Raises ValueError"

fun Priority_call :: "json \<Rightarrow> Priority outcome" where
  "Priority_call (JStr x) =
     (case find (\<lambda>p. Priority_value p = x) [CRITICAL, HIGH, MEDIUM, LOW] of
        None \<Rightarrow> Raises ValueError
      | Some p \<Rightarrow> Returns p)"
| "Priority_call _ = Raises ValueError"

definition FIELDS :: "string list" where
  "FIELDS = [''id'', ''type'', ''title'', ''content'', ''priority'', ''created_at'', ''updated_at'',
             ''tags'', ''connections'', ''metadata'']"

fun as_str :: "json \<Rightarrow> string option" where
  "as_str (JStr x) = Some x"
| "as_str _ = None"

fun as_str_list :: "json \<Rightarrow> string list option" where
  "as_str_list (JList xs) = those (map as_str xs)"
| "as_str_list _ = None"

fun as_dict :: "json \<Rightarrow> (string \<times> json) list option" where
  "as_dict (JDict d) = Some d"
| "as_dict _ = None"

text \<open>
  \<open>cls(**data)\<close>: a key that is no field, or a field without a key, is a
  \<open>TypeError\<close>. The constructor does not check the values of \<open>id\<close>, \<open>title\<close>,
  \<open>content\<close>, \<open>tags\<close>, \<open>connections\<close> and \<open>metadata\<close> against their annotations;
  where one is of another JSON type the item is \<open>Untyped\<close>.
\<close>

definition cls ::
  "(string \<times> json) list \<Rightarrow> datetime \<Rightarrow> datetime \<Rightarrow> ContextType \<Rightarrow> Priority \<Rightarrow> state \<Rightarrow>
   (ContextItem \<times> state) outcome" where
  "cls d created updated ty pr s =
     (if \<not> list_all (\<lambda>k. k \<in> set FIELDS) (map fst d) then Raises TypeError
      else
        (case (map_of d ''id'', map_of d ''title'', map_of d ''content'',
               map_of d ''tags'', map_of d ''connections'', map_of d ''metadata'') of
           (Some i, Some t, Some c, Some tg, Some cn, Some m) \<Rightarrow>
             (case (as_str i, as_str t, as_str c, as_str_list tg, as_str_list cn, as_dict m) of
                (Some i', Some t', Some c', Some tg', Some cn', Some m') \<Rightarrow>
                  (let (r, s') = new_dict m' s
                   in Returns
                        (\<lparr>ctx_id = i', ctx_type = ty, title = t', content = c', priority = pr,
                          created_at = created, updated_at = updated, tags = tg',
                          connections = cn', metadata = r\<rparr>, s'))
              | _ \<Rightarrow> Untyped)
         | _ \<Rightarrow> Raises TypeError))"

definition from_dict ::
  "(string \<Rightarrow> datetime option) \<Rightarrow> json \<Rightarrow> state \<Rightarrow> (ContextItem \<times> state) outcome" where
  "from_dict fromisoformat data s =
     and_then (getitem data ''created_at'') (\<lambda>v1.
     and_then (call_fromisoformat fromisoformat v1) (\<lambda>created.
     and_then (getitem data ''updated_at'') (\<lambda>v2.
     and_then (call_fromisoformat fromisoformat v2) (\<lambda>updated.
     and_then (getitem data ''type'') (\<lambda>v3.
     and_then (ContextType_call v3) (\<lambda>ty.
     and_then (getitem data ''priority'') (\<lambda>v4.
     and_then (Priority_call v4) (\<lambda>pr.
       (case data of JDict d \<Rightarrow> cls d created updated ty pr s | _ \<Rightarrow> Raises TypeError)))))))))"

text \<open>
  The dict comprehension of \<open>load_contexts\<close>, item by item, \<open>acc\<close> the dict it has
  built so far. After an \<open>Untyped\<close> item Python goes on, and a later item may still raise.
\<close>

fun from_items ::
  "(string \<Rightarrow> datetime option) \<Rightarrow> (string \<times> json) list \<Rightarrow> (string \<times> ContextItem) list \<Rightarrow> state \<Rightarrow>
   ((string \<times> ContextItem) list \<times> state) outcome" where
  "from_items fromisoformat [] acc s = Returns (acc, s)"
| "from_items fromisoformat (kv # rest) acc s =
     (case from_dict fromisoformat (snd kv) s of
        Raises e \<Rightarrow> Raises e
      | Untyped \<Rightarrow>
          (case from_items fromisoformat rest acc s of Raises e \<Rightarrow> Raises e | _ \<Rightarrow> Untyped)
      | Returns cs' \<Rightarrow> from_items fromisoformat rest (dict_set (fst kv) (fst cs') acc) (snd cs'))"

text \<open>
  The body of the \<open>try\<close> in \<open>load_contexts\<close>: \<open>json.load\<close>, \<open>data.items()\<close> (which
  only a dict has) and the comprehension.
\<close>

fun load_try :: "(string \<Rightarrow> datetime option) \<Rightarrow> store_file \<Rightarrow> state \<Rightarrow> state outcome" where
  "load_try fromisoformat Unparseable s = Raises JSONDecodeError"
| "load_try fromisoformat (Parsed (JDict items)) s =
     (case from_items fromisoformat items [] s of
        Raises e \<Rightarrow> Raises e
      | Untyped \<Rightarrow> Untyped
      | Returns cs' \<Rightarrow> Returns ((snd cs')\<lparr>contexts := fst cs'\<rparr>))"
| "load_try fromisoformat (Parsed _) s = Raises AttributeError"

text \<open>
  \<open>load_contexts\<close>: without a file nothing is done; \<open>except Exception\<close> takes every
  exception of the body and leaves the empty mapping.
\<close>

definition load_contexts :: "(string \<Rightarrow> datetime option) \<Rightarrow> state \<Rightarrow> state outcome" where
  "load_contexts fromisoformat s =
     (case disk s of
        None \<Rightarrow> Returns s
      | Some f \<Rightarrow>
          (case load_try fromisoformat f s of
             Raises e \<Rightarrow> Returns (s\<lparr>contexts := []\<rparr>)
           | Untyped \<Rightarrow> Untyped
           | Returns s' \<Rightarrow> Returns s'))"

text \<open>\<open>ContextManager.__init__\<close>\<close>

definition ContextManager_init :: "(string \<Rightarrow> datetime option) \<Rightarrow> state \<Rightarrow> state outcome" where
  "ContextManager_init fromisoformat s = load_contexts fromisoformat (s\<lparr>contexts := []\<rparr>)"

subsection \<open>A parser for the timestamps that isoformat writes\<close>

text \<open>
  \<open>datetime.fromisoformat\<close> on the strings of the form \<open>YYYY-MM-DDTHH:MM:SS+00:00\<close>
  and \<open>YYYY-MM-DDTHH:MM:SS.ffffff+00:00\<close>, with the range checks of \<open>datetime\<close>.
  It is the instance of the parameter \<open>fromisoformat\<close> that the examples run with.
\<close>

definition is_leap :: "nat \<Rightarrow> bool" where
  "is_leap y = (y mod 4 = 0 \<and> (y mod 100 \<noteq> 0 \<or> y mod 400 = 0))"

definition days_in_month :: "nat \<Rightarrow> nat \<Rightarrow> nat" where
  "days_in_month y m =
     (if m = 2 then (if is_leap y then 29 else 28)
      else if m = 4 \<or> m = 6 \<or> m = 9 \<or> m = 11 then 30 else 31)"

definition valid_datetime :: "datetime \<Rightarrow> bool" where
  "valid_datetime t =
     (1 \<le> year t \<and> year t \<le> 9999 \<and> 1 \<le> month t \<and> month t \<le> 12 \<and>
      1 \<le> day t \<and> day t \<le> days_in_month (year t) (month t) \<and>
      hour t < 24 \<and> minute t < 60 \<and> second t < 60 \<and> microsecond t < 1000000)"

definition digit_val :: "char \<Rightarrow> nat option" where
  "digit_val c = map_of (zip ''0123456789'' [0, 1, 2, 3, 4, 5, 6, 7, 8, 9]) c"

definition nat_of_digits :: "string \<Rightarrow> nat option" where
  "nat_of_digits s = map_option (foldl (\<lambda>a d. 10 * a + d) 0) (those (map digit_val s))"

definition fromisoformat_utc :: "string \<Rightarrow> datetime option" where
  "fromisoformat_utc s =
     (let n = length s in
      if (n = 25 \<or> n = 32) \<and> s ! 4 = CHR ''-'' \<and> s ! 7 = CHR ''-'' \<and> s ! 10 = CHR ''T'' \<and>
         s ! 13 = CHR '':'' \<and> s ! 16 = CHR '':'' \<and> (n = 25 \<or> s ! 19 = CHR ''.'') \<and>
         drop (n - 6) s = ''+00:00''
      then
        (case (nat_of_digits (take 4 s), nat_of_digits (take 2 (drop 5 s)),
               nat_of_digits (take 2 (drop 8 s)), nat_of_digits (take 2 (drop 11 s)),
               nat_of_digits (take 2 (drop 14 s)), nat_of_digits (take 2 (drop 17 s)),
               (if n = 25 then Some 0 else nat_of_digits (take 6 (drop 20 s)))) of
           (Some y, Some mo, Some d, Some h, Some mi, Some se, Some us) \<Rightarrow>
             (let t = \<lparr>year = y, month = mo, day = d, hour = h, minute = mi, second = se,
                       microsecond = us\<rparr>
              in if valid_datetime t then Some t else None)
         | _ \<Rightarrow> None)
      else None)"

section \<open>Example inputs\<close>

text \<open>Four readings of the clock; the first two fall in the same second.\<close>

definition clock1 :: datetime where
  "clock1 = \<lparr>year = 2024, month = 3, day = 5, hour = 9, minute = 7, second = 1, microsecond = 250\<rparr>"

definition clock1b :: datetime where
  "clock1b = \<lparr>year = 2024, month = 3, day = 5, hour = 9, minute = 7, second = 1, microsecond = 900\<rparr>"

definition clock2 :: datetime where
  "clock2 = \<lparr>year = 2024, month = 3, day = 5, hour = 9, minute = 7, second = 2, microsecond = 0\<rparr>"

definition clock3 :: datetime where
  "clock3 = \<lparr>year = 2024, month = 3, day = 5, hour = 9, minute = 8, second = 30, microsecond = 0\<rparr>"

text \<open>A store with one item that was added with metadata of its own.\<close>

definition store_one :: state where
  "store_one =
     snd (add_context clock1 ''Plan'' ''write the plan'' None None (Some [''work'']) None
            (Some [(''a'', JInt 1), (''k'', JNull)]) (fresh_process None))"

text \<open>A store built by two calls that omit the metadata argument.\<close>

definition store_two :: state where
  "store_two =
     snd (add_context clock2 ''B'' ''b'' (Some TASK) None None None None
       (snd (add_context clock1 ''A'' ''a'' None None None None None (fresh_process None))))"

text \<open>
  The Greek words \<open>ODOS\<close> and \<open>ODOSA\<close> in capital letters, as UTF-8, and what
  \<open>str.lower\<close> makes of them: the sigma that ends the first word becomes a final
  sigma (\<open>CF 82\<close>), the sigma inside the second one does not (\<open>CF 83\<close>).
  \<open>str_lower_example\<close> is \<open>str.lower\<close> on these two words and on ASCII text, the
  strings of the examples.
\<close>

definition ODOS :: string where
  "ODOS = [CHR 0xCE, CHR 0x9F, CHR 0xCE, CHR 0x94, CHR 0xCE, CHR 0x9F, CHR 0xCE, CHR 0xA3]"

definition ODOSA :: string where
  "ODOSA = [CHR 0xCE, CHR 0x9F, CHR 0xCE, CHR 0x94, CHR 0xCE, CHR 0x9F, CHR 0xCE, CHR 0xA3,
            CHR 0xCE, CHR 0x91]"

definition odos_lower :: string where
  "odos_lower = [CHR 0xCE, CHR 0xBF, CHR 0xCE, CHR 0xB4, CHR 0xCE, CHR 0xBF, CHR 0xCF, CHR 0x82]"

definition odosa_lower :: string where
  "odosa_lower = [CHR 0xCE, CHR 0xBF, CHR 0xCE, CHR 0xB4, CHR 0xCE, CHR 0xBF, CHR 0xCF, CHR 0x83,
                  CHR 0xCE, CHR 0xB1]"

definition str_lower_example :: "string \<Rightarrow> string" where
  "str_lower_example s =
     (if s = ODOS then odos_lower else if s = ODOSA then odosa_lower else ascii_lower s)"

text \<open>A store with one item, whose title is the second word.\<close>

definition store_greek :: state where
  "store_greek =
     snd (add_context clock1 ODOSA ''a street'' None None None None None (fresh_process None))"

text \<open>The item that \<open>add_context\<close> builds, given the address of its metadata.\<close>

definition new_item ::
  "datetime \<Rightarrow> string \<Rightarrow> string \<Rightarrow> ContextType option \<Rightarrow> Priority option \<Rightarrow>
   string list option \<Rightarrow> string list option \<Rightarrow> ref \<Rightarrow> ContextItem" where
  "new_item now t c tyo p tg cn r =
     \<lparr>ctx_id = context_id_of (case tyo of None \<Rightarrow> CONVERSATION | Some x \<Rightarrow> x) now,
      ctx_type = (case tyo of None \<Rightarrow> CONVERSATION | Some x \<Rightarrow> x),
      title = t, content = c,
      priority = (case p of None \<Rightarrow> MEDIUM | Some x \<Rightarrow> x),
      created_at = now, updated_at = now,
      tags = (case tg of None \<Rightarrow> [] | Some x \<Rightarrow> x),
      connections = (case cn of None \<Rightarrow> [] | Some x \<Rightarrow> x),
      metadata = r\<rparr>"

text \<open>A file with one entry, of a type that is no member of \<open>ContextType\<close>.\<close>

definition bad_item :: json where
  "bad_item = JDict
     [(''id'', JStr ''note_1''), (''type'', JStr ''meeting''), (''title'', JStr ''T''),
      (''content'', JStr ''c''), (''priority'', JStr ''high''),
      (''created_at'', JStr ''2024-03-05T09:07:02+00:00''), (''updated_at'', JStr ''yesterday''),
      (''tags'', JList []), (''connections'', JList []), (''metadata'', JDict [])]"

definition bad_file :: store_file where
  "bad_file = Parsed (JDict [(''note_1'', bad_item)])"

section \<open>Sequences of calls\<close>

text \<open>
  A call of add or of update with the reading of the clock it takes, and a run of such
  calls. \<open>timely s t\<close>: no item of \<open>s\<close> was updated before it was created or after
  \<open>t\<close>. \<open>updated_item\<close> is the item that \<open>update_context\<close> leaves in place of the one
  it found. \<open>separate s\<close>: the items of \<open>s\<close> hold metadata dicts of their own, no
  two of them the same address, and every address held is below the next free one.
\<close>

datatype call =
    Add datetime string string "ContextType option" "Priority option" "string list option"
      "string list option" "(string \<times> json) list option"
  | Update datetime string "string option" "string option" "Priority option" "string list option"
      "string list option" "(string \<times> json) list option"

fun call_time :: "call \<Rightarrow> datetime" where
  "call_time (Add now t c ty p tg cn md) = now"
| "call_time (Update now i t c p tg cn md) = now"

fun exec :: "call \<Rightarrow> state \<Rightarrow> state" where
  "exec (Add now t c ty p tg cn md) s = snd (add_context now t c ty p tg cn md s)"
| "exec (Update now i t c p tg cn md) s = snd (update_context now i t c p tg cn md s)"

fun run :: "call list \<Rightarrow> state \<Rightarrow> state" where
  "run [] s = s"
| "run (c # cs) s = run cs (exec c s)"

definition timely :: "state \<Rightarrow> nat \<times> nat \<times> nat \<times> nat \<times> nat \<times> nat \<times> nat \<Rightarrow> bool" where
  "timely s t =
     (\<forall>kc \<in> set (contexts s).
        dt_key (created_at (snd kc)) \<le> dt_key (updated_at (snd kc)) \<and>
        dt_key (updated_at (snd kc)) \<le> t)"

definition updated_item ::
  "datetime \<Rightarrow> string option \<Rightarrow> string option \<Rightarrow> Priority option \<Rightarrow> string list option \<Rightarrow>
   string list option \<Rightarrow> ContextItem \<Rightarrow> ContextItem" where
  "updated_item now t c p tg cn x =
     (let c1 = (case t of None \<Rightarrow> x | Some v \<Rightarrow> x\<lparr>title := v\<rparr>);
          c2 = (case c of None \<Rightarrow> c1 | Some v \<Rightarrow> c1\<lparr>content := v\<rparr>);
          c3 = (case p of None \<Rightarrow> c2 | Some v \<Rightarrow> c2\<lparr>priority := v\<rparr>);
          c4 = (case tg of None \<Rightarrow> c3 | Some v \<Rightarrow> c3\<lparr>tags := v\<rparr>);
          c5 = (case cn of None \<Rightarrow> c4 | Some v \<Rightarrow> c4\<lparr>connections := v\<rparr>)
      in c5\<lparr>updated_at := now\<rparr>)"

definition separate :: "state \<Rightarrow> bool" where
  "separate s =
     (distinct (map (\<lambda>kc. metadata (snd kc)) (contexts s)) \<and>
      list_all (\<lambda>kc. metadata (snd kc) < next_ref s) (contexts s))"

definition calls_example :: "call list" where
  "calls_example =
     [Add clock1 ''A'' ''a'' None None None None None,
      Add clock2 ''B'' ''b'' (Some TASK) None None None None,
      Update clock3 ''conversation_20240305_090701'' (Some ''A2'') None None None None None]"

text \<open>A run in which the clock is set back between the add and the update.\<close>

definition calls_backwards :: "call list" where
  "calls_backwards =
     [Add clock3 ''A'' ''a'' None None None None None,
      Update clock1 ''conversation_20240305_090830'' (Some ''A2'') None None None None None]"

section \<open>The words of the claims\<close>

text \<open>
  These definitions follow the claims' words, not the source; the theorems compare
  them with what the source computes. Two characters are the same letter when they are
  equal or one is a capital of \<open>LETTERS\<close> and the other its small letter. \<open>q\<close>
  appears in \<open>s\<close> as a case-insensitive substring when some stretch of \<open>s\<close> is \<open>q\<close>
  letter for letter; an item is one that a search for \<open>q\<close> under a type filter must
  return.
\<close>

definition LETTERS :: "(char \<times> char) list" where
  "LETTERS = zip ''ABCDEFGHIJKLMNOPQRSTUVWXYZ'' ''abcdefghijklmnopqrstuvwxyz''"

definition same_letter :: "char \<Rightarrow> char \<Rightarrow> bool" where
  "same_letter a b = (a = b \<or> (a, b) \<in> set LETTERS \<or> (b, a) \<in> set LETTERS)"

definition case_insensitive_substring :: "string \<Rightarrow> string \<Rightarrow> bool" where
  "case_insensitive_substring q s =
     (\<exists>before w after. s = before @ w @ after \<and> list_all2 same_letter q w)"

definition search_matches :: "string \<Rightarrow> ContextType option \<Rightarrow> ContextItem \<Rightarrow> bool" where
  "search_matches q type_filter c =
     ((case type_filter of None \<Rightarrow> True | Some t \<Rightarrow> ctx_type c = t) \<and>
      (case_insensitive_substring q (title c) \<or> case_insensitive_substring q (content c) \<or>
       (\<exists>tag \<in> set (tags c). case_insensitive_substring q tag)))"

text \<open>
  What the search does in terms of \<open>str.lower\<close>: the lowered query is a substring of
  the lowered title, of the lowered content or of a lowered tag. A store of ASCII text
  has only such titles, contents and tags.
\<close>

definition lowered_match :: "(string \<Rightarrow> string) \<Rightarrow> string \<Rightarrow> ContextType option \<Rightarrow> ContextItem \<Rightarrow> bool" where
  "lowered_match str_lower q type_filter c =
     ((case type_filter of None \<Rightarrow> True | Some t \<Rightarrow> ctx_type c = t) \<and>
      (sublist (str_lower q) (str_lower (title c)) \<or> sublist (str_lower q) (str_lower (content c)) \<or>
       (\<exists>tag \<in> set (tags c). sublist (str_lower q) (str_lower tag))))"

definition ascii_texts :: "state \<Rightarrow> bool" where
  "ascii_texts s =
     list_all (\<lambda>c. is_ascii (title c) \<and> is_ascii (content c) \<and> list_all is_ascii (tags c))
       (map snd (contexts s))"

text \<open>
  The order of two timestamps: \<open>a\<close> is not before \<open>b\<close>, that is, \<open>a \<ge> b\<close>.
\<close>

definition not_before :: "datetime \<Rightarrow> datetime \<Rightarrow> bool" where
  "not_before a b =
     (year b < year a \<or> year b = year a \<and>
      (month b < month a \<or> month b = month a \<and>
       (day b < day a \<or> day b = day a \<and>
        (hour b < hour a \<or> hour b = hour a \<and>
         (minute b < minute a \<or> minute b = minute a \<and>
          (second b < second a \<or> second b = second a \<and> microsecond b \<le> microsecond a))))))"

text \<open>
  Two items are equal field for field, the metadata as the mappings that the two
  heaps hold for them; two stores hold the same mapping when they hold equal items
  under the same keys in the same order.
\<close>

definition same_item ::
  "(ref \<Rightarrow> (string \<times> json) list) \<Rightarrow> ContextItem \<Rightarrow> (ref \<Rightarrow> (string \<times> json) list) \<Rightarrow> ContextItem \<Rightarrow> bool" where
  "same_item h c h' c' =
     (ctx_id c' = ctx_id c \<and> ctx_type c' = ctx_type c \<and> title c' = title c \<and>
      content c' = content c \<and> priority c' = priority c \<and> created_at c' = created_at c \<and>
      updated_at c' = updated_at c \<and> tags c' = tags c \<and> connections c' = connections c \<and>
      h' (metadata c') = h (metadata c))"

definition same_mapping :: "state \<Rightarrow> state \<Rightarrow> bool" where
  "same_mapping s s' =
     list_all2 (\<lambda>kc kc'. fst kc' = fst kc \<and> same_item (heap s) (snd kc) (heap s') (snd kc'))
       (contexts s) (contexts s')"

text \<open>
  An entry of the file has an unknown type or priority value when what it holds under
  that key is not the value of any member; it has an unparseable timestamp when one of
  its two timestamps is a string that the parser does not read.
\<close>

definition unknown_type :: "json \<Rightarrow> bool" where
  "unknown_type d = (\<forall>t. getitem d ''type'' \<noteq> Returns (JStr (ContextType_value t)))"

definition unknown_priority :: "json \<Rightarrow> bool" where
  "unknown_priority d = (\<forall>p. getitem d ''priority'' \<noteq> Returns (JStr (Priority_value p)))"

definition unparseable_timestamp :: "(string \<Rightarrow> datetime option) \<Rightarrow> json \<Rightarrow> bool" where
  "unparseable_timestamp fromisoformat d =
     (\<exists>x. (getitem d ''created_at'' = Returns (JStr x) \<or> getitem d ''updated_at'' = Returns (JStr x)) \<and>
          fromisoformat x = None)"

text \<open>
  The report that stats is to give for the items \<open>cs\<close>: the total, the number of
  items of each type and of each priority that has any, in the order of the names, and
  title and time of the three items updated last.
\<close>

definition TYPES_BY_NAME :: "ContextType list" where
  "TYPES_BY_NAME = [CONVERSATION, DECISION, INSIGHT, PROJECT, RELATIONSHIP, TASK]"

definition PRIORITIES_BY_NAME :: "Priority list" where
  "PRIORITIES_BY_NAME = [CRITICAL, HIGH, LOW, MEDIUM]"

definition counts_by_type :: "ContextItem list \<Rightarrow> (string \<times> nat) list" where
  "counts_by_type cs =
     map (\<lambda>t. (ContextType_value t, length (filter (\<lambda>c. ctx_type c = t) cs)))
       (filter (\<lambda>t. 0 < length (filter (\<lambda>c. ctx_type c = t) cs)) TYPES_BY_NAME)"

definition counts_by_priority :: "ContextItem list \<Rightarrow> (string \<times> nat) list" where
  "counts_by_priority cs =
     map (\<lambda>p. (Priority_value p, length (filter (\<lambda>c. priority c = p) cs)))
       (filter (\<lambda>p. 0 < length (filter (\<lambda>c. priority c = p) cs)) PRIORITIES_BY_NAME)"

definition stats_report :: "ContextItem list \<Rightarrow> string" where
  "stats_report cs =
     join NL
       ([MARK_STATS @ '' Context Store Statistics'' @ NL,
         ''**Total Contexts:** '' @ str_nat (length cs),
         NL @ ''**By Type:**''] @
        map count_line (counts_by_type cs) @
        [NL @ ''**By Priority:**''] @
        map count_line (counts_by_priority cs) @
        [NL @ ''**Most Recent:**''] @
        map recent_line (take 3 (sorted_reverse (\<lambda>x. dt_key (updated_at x)) cs)))"

text \<open>One round of a counting loop of \<open>get_context_stats\<close>.\<close>

definition count_step :: "string \<Rightarrow> (string \<times> nat) list \<Rightarrow> (string \<times> nat) list" where
  "count_step v counts = dict_set v ((case map_of counts v of None \<Rightarrow> 0 | Some n \<Rightarrow> n) + 1) counts"

section \<open>Dicts\<close>

lemma map_of_dict_set: "map_of (dict_set k v d) = (map_of d)(k \<mapsto> v)"
  by (induction d) (auto simp: fun_eq_iff)

lemma keys_dict_set: "fst ` set (dict_set k v d) = insert k (fst ` set d)"
  by (induction d) auto

lemma length_dict_set:
  "length (dict_set k v d) = (if k \<in> fst ` set d then length d else Suc (length d))"
  by (induction d) auto

lemma map_fst_dict_set_known: "k \<in> fst ` set d \<Longrightarrow> map fst (dict_set k v d) = map fst d"
  by (induction d) auto

lemma dict_set_new: "k \<notin> fst ` set d \<Longrightarrow> dict_set k v d = d @ [(k, v)]"
  by (induction d) auto

lemma distinct_dict_set: "distinct (map fst d) \<Longrightarrow> distinct (map fst (dict_set k v d))"
  by (induction d) (auto simp: keys_dict_set)

lemma map_of_fold_dict_set:
  "map_of (fold (\<lambda>kv acc. dict_set (fst kv) (snd kv) acc) m d) = map_of d ++ map_of (rev m)"
  by (induction m arbitrary: d) (auto simp: map_of_dict_set fun_eq_iff map_add_def split: option.splits)

lemma map_of_rev_distinct: "distinct (map fst xs) \<Longrightarrow> map_of (rev xs) = map_of xs"
  by (subst map_of_inject_set) (simp_all add: rev_map [symmetric])

lemma map_of_dict_update:
  "distinct (map fst m) \<Longrightarrow> map_of (dict_update d m) = map_of d ++ map_of m"
  by (simp add: dict_update_def map_of_fold_dict_set map_of_rev_distinct)

section \<open>What add\_context leaves\<close>

lemma add_context_fst:
  "fst (add_context now t c tyo p tg cn md s) =
     MARK_OK @ '' Context '' @ [CHR 0x27] @ t @ [CHR 0x27] @ '' added with ID: '' @
     context_id_of (case tyo of None \<Rightarrow> CONVERSATION | Some x \<Rightarrow> x) now"
  by (cases md) (simp_all add: add_context_def Let_def new_dict_def)

lemma add_context_contexts:
  "contexts (snd (add_context now t c tyo p tg cn md s)) =
     dict_set (context_id_of (case tyo of None \<Rightarrow> CONVERSATION | Some x \<Rightarrow> x) now)
       (new_item now t c tyo p tg cn (next_ref s))
       (contexts s)"
  by (cases md)
    (simp_all add: add_context_def Let_def new_dict_def ContextManager_add_context_def
      save_contexts_def new_item_def)

lemma add_context_heap:
  "heap (snd (add_context now t c tyo p tg cn md s)) =
     (heap s)(next_ref s := (case md of None \<Rightarrow> [] | Some d \<Rightarrow> d))"
  by (cases md)
    (simp_all add: add_context_def Let_def new_dict_def ContextManager_add_context_def save_contexts_def)

lemma add_context_next_ref:
  "next_ref (snd (add_context now t c tyo p tg cn md s)) = Suc (next_ref s)"
  by (cases md)
    (simp_all add: add_context_def Let_def new_dict_def ContextManager_add_context_def save_contexts_def)

text \<open>The rules that run the tools on the example inputs.\<close>

lemmas run_defs =
  add_context_contexts add_context_heap add_context_next_ref add_context_fst new_item_def
  update_context_def save_contexts_def get_context_def context_id_of_def fresh_process_def
  dict_update_def strftime_id_def pad2_def pad4_def zfill_def str_nat.simps
  digit_char_def Let_def clock1_def clock1b_def clock2_def clock3_def

lemma store_one_contexts:
  "contexts store_one =
     [(''conversation_20240305_090701'',
       \<lparr>ctx_id = ''conversation_20240305_090701'', ctx_type = CONVERSATION, title = ''Plan'',
        content = ''write the plan'', priority = MEDIUM, created_at = clock1, updated_at = clock1,
        tags = [''work''], connections = [], metadata = 1\<rparr>)]"
  by (simp add: store_one_def run_defs)

lemma store_one_heap: "heap store_one 1 = [(''a'', JInt 1), (''k'', JNull)]"
  by (simp add: store_one_def run_defs)

lemma store_two_contexts:
  "contexts store_two =
     [(''conversation_20240305_090701'',
       \<lparr>ctx_id = ''conversation_20240305_090701'', ctx_type = CONVERSATION, title = ''A'',
        content = ''a'', priority = MEDIUM, created_at = clock1, updated_at = clock1,
        tags = [], connections = [], metadata = 1\<rparr>),
      (''task_20240305_090702'',
       \<lparr>ctx_id = ''task_20240305_090702'', ctx_type = TASK, title = ''B'',
        content = ''b'', priority = MEDIUM, created_at = clock2, updated_at = clock2,
        tags = [], connections = [], metadata = 2\<rparr>)]"
  by (simp add: store_two_def run_defs)

lemma store_two_heap: "heap store_two = (\<lambda>_. [])"
  by (simp add: store_two_def run_defs fun_eq_iff)

section \<open>Searching and sorting\<close>

lemma py_in_sublist: "py_in q s = sublist q s"
  by (induction s) (simp_all add: sublist_Cons_right)

lemma search_loop_filter:
  "search_loop str_lower (str_lower q) ty cs results = results @ filter (lowered_match str_lower q ty) cs"
  by (induction cs arbitrary: results)
    (auto simp: lowered_match_def py_in_sublist list_ex_iff split: option.splits)

lemma not_before_dt_key: "not_before a b = (dt_key b \<le> dt_key a)"
  by (auto simp: not_before_def dt_key_def less_eq_prod_def less_prod_def)

lemma table_fold_eq:
  assumes "distinct (map fst T)" and "distinct (map snd T)" and "fst ` set T \<inter> snd ` set T = {}"
  shows "((case map_of T a of None \<Rightarrow> a | Some l \<Rightarrow> l) = (case map_of T b of None \<Rightarrow> b | Some l \<Rightarrow> l))
         = (a = b \<or> (a, b) \<in> set T \<or> (b, a) \<in> set T)"
proof -
  have some: "(x, l) \<in> set T \<longleftrightarrow> map_of T x = Some l" for x l
    using assms(1) by simp
  have inj: "x = y" if "map_of T x = Some l" "map_of T y = Some l" for x y l
  proof -
    have "(x, l) \<in> set T" "(y, l) \<in> set T"
      using that by (simp_all add: some)
    then show ?thesis
      using assms(2) by (metis distinct_map inj_onD snd_conv fst_conv)
  qed
  have disj: "\<not> (map_of T x = Some y \<and> map_of T y = Some z)" for x y z
  proof
    assume "map_of T x = Some y \<and> map_of T y = Some z"
    then have "(x, y) \<in> set T" "(y, z) \<in> set T"
      by (simp_all add: some)
    then have "y \<in> fst ` set T \<inter> snd ` set T"
      by force
    then show False using assms(3) by simp
  qed
  show ?thesis
  proof (cases "map_of T a")
    case None
    note a = this
    show ?thesis
    proof (cases "map_of T b")
      case None
      then show ?thesis using a by (simp add: some)
    next
      case (Some y)
      then show ?thesis using a by (auto simp: some)
    qed
  next
    case (Some x)
    note a = this
    show ?thesis
    proof (cases "map_of T b")
      case None
      then show ?thesis using a by (auto simp: some)
    next
      case (Some y)
      then show ?thesis using a disj [of a b y] disj [of b a x] inj [of a x b] by (auto simp: some)
    qed
  qed
qed

lemma lower_char_same_letter: "(lower_char a = lower_char b) = same_letter a b"
  unfolding lower_char_def same_letter_def LETTERS_def
  by (rule table_fold_eq) simp_all

lemma sublist_map_iff:
  "sublist (map f q) (map f s) =
     (\<exists>before w after. s = before @ w @ after \<and> list_all2 (\<lambda>a b. f a = f b) q w)"
proof -
  have eq: "map f q = map f w \<longleftrightarrow> list_all2 (\<lambda>a b. f a = f b) q w" for w
    by (simp add: list_all2_map1 list_all2_map2 flip: list.rel_eq)
  show ?thesis
    unfolding sublist_def
    by (auto simp: map_eq_append_conv append_eq_map_conv eq [symmetric]) metis+
qed

lemma py_in_ascii_lower: "py_in (ascii_lower q) (ascii_lower s) = case_insensitive_substring q s"
  by (simp add: py_in_sublist ascii_lower_def sublist_map_iff lower_char_same_letter
      case_insensitive_substring_def)

lemma lowered_match_ascii:
  assumes "\<forall>x. is_ascii x \<longrightarrow> str_lower x = ascii_lower x" and "is_ascii q"
    and "is_ascii (title c) \<and> is_ascii (content c) \<and> list_all is_ascii (tags c)"
  shows "lowered_match str_lower q ty c = search_matches q ty c"
  using assms
  by (auto simp: lowered_match_def search_matches_def list_all_iff
      py_in_ascii_lower [unfolded py_in_sublist])

lemma filter_lowered_match_ascii:
  assumes "\<forall>x. is_ascii x \<longrightarrow> str_lower x = ascii_lower x" and "is_ascii q" and "ascii_texts s"
  shows "filter (lowered_match str_lower q ty) (map snd (contexts s)) =
         filter (search_matches q ty) (map snd (contexts s))"
proof (rule filter_cong [OF refl])
  fix c assume "c \<in> set (map snd (contexts s))"
  then have "is_ascii (title c) \<and> is_ascii (content c) \<and> list_all is_ascii (tags c)"
    using assms(3) by (auto simp: ascii_texts_def list_all_iff)
  then show "lowered_match str_lower q ty c = search_matches q ty c"
    by (rule lowered_match_ascii [OF assms(1,2)])
qed

lemma str_lower_example_ascii: "is_ascii x \<Longrightarrow> str_lower_example x = ascii_lower x"
  by (auto simp: str_lower_example_def is_ascii_def ODOS_def ODOSA_def)

lemma literal_substring: "case_insensitive_substring q (before @ q @ after)"
proof -
  have "list_all2 same_letter q q"
    by (simp add: list_all2_same same_letter_def)
  then show ?thesis
    unfolding case_insensitive_substring_def by blast
qed

lemma store_greek_contexts:
  "contexts store_greek =
     [(''conversation_20240305_090701'',
       \<lparr>ctx_id = ''conversation_20240305_090701'', ctx_type = CONVERSATION, title = ODOSA,
        content = ''a street'', priority = MEDIUM, created_at = clock1, updated_at = clock1,
        tags = [], connections = [], metadata = 1\<rparr>)]"
  by (simp add: store_greek_def run_defs)

lemma mset_sorted_reverse: "mset (sorted_reverse k xs) = mset xs"
  by (simp add: sorted_reverse_def)

lemma sorted_reverse_descending: "sorted_wrt (\<lambda>a b. k b \<le> k a) (sorted_reverse k xs)"
proof -
  have "sorted (map k (sort_key k (rev xs)))" by simp
  then have "sorted_wrt (\<lambda>a b. k a \<le> k b) (sort_key k (rev xs))"
    by (simp add: sorted_map)
  then show ?thesis
    by (simp add: sorted_reverse_def sorted_wrt_rev)
qed

section \<open>Counting\<close>

lemma map_of_fold_count:
  "map_of (fold count_step vs acc) v =
     (if v \<in> set vs then Some ((case map_of acc v of None \<Rightarrow> 0 | Some n \<Rightarrow> n) + count_list vs v)
      else map_of acc v)"
  by (induction vs arbitrary: acc) (auto simp: count_step_def map_of_dict_set)

lemma distinct_fold_count:
  "distinct (map fst acc) \<Longrightarrow> distinct (map fst (fold count_step vs acc))"
  by (induction vs arbitrary: acc) (auto simp: count_step_def distinct_dict_set)

lemma count_values_fold: "count_values vs = fold count_step vs []"
  by (simp add: count_values_def count_step_def [abs_def])

lemma map_of_count_values:
  "map_of (count_values vs) v = (if v \<in> set vs then Some (count_list vs v) else None)"
  by (simp add: count_values_fold map_of_fold_count)

lemma distinct_count_values: "distinct (map fst (count_values vs))"
  by (simp add: count_values_fold distinct_fold_count)

lemma set_count_values: "set (count_values vs) = {(v, n). v \<in> set vs \<and> n = count_list vs v}"
proof -
  have "(v, n) \<in> set (count_values vs) \<longleftrightarrow> map_of (count_values vs) v = Some n" for v n
    by (simp add: distinct_count_values)
  then show ?thesis
    by (auto simp: map_of_count_values split: if_splits)
qed

lemma sorted_pairs_of_names:
  "sorted_wrt (\<lambda>a b. fst a < fst b) (ps :: (string \<times> nat) list) \<Longrightarrow> sorted ps \<and> distinct ps"
  by (induction ps) (auto simp: less_eq_prod_def)

lemma count_list_kind:
  assumes "inj_on name (insert t (kind ` set cs))"
  shows "count_list (map (\<lambda>c. name (kind c)) cs) (name t) = length (filter (\<lambda>c. kind c = t) cs)"
  using assms by (induction cs) (auto simp: inj_on_def)

lemma sort_count_values:
  fixes name :: "'t \<Rightarrow> string" and kind :: "'c \<Rightarrow> 't"
  assumes names: "sorted_wrt (\<lambda>a b. name a < name b) ts" and all: "\<forall>t. t \<in> set ts"
  shows "sort (count_values (map (\<lambda>c. name (kind c)) cs)) =
         map (\<lambda>t. (name t, length (filter (\<lambda>c. kind c = t) cs)))
           (filter (\<lambda>t. 0 < length (filter (\<lambda>c. kind c = t) cs)) ts)"
    (is "?l = ?r")
proof (rule sorted_distinct_set_unique)
  show "sorted ?l" by simp
  show "distinct ?l"
    using distinct_count_values [of "map (\<lambda>c. name (kind c)) cs"] by (simp add: distinct_map)
  have inj: "inj name"
  proof (rule injI)
    fix a b assume eq: "name a = name b"
    show "a = b"
    proof (rule ccontr)
      assume "a \<noteq> b"
      moreover have "a \<in> set ts" "b \<in> set ts" using all by auto
      ultimately have "name a < name b \<or> name b < name a"
        using names by (induction ts) auto
      with eq show False by simp
    qed
  qed
  have "sorted_wrt (\<lambda>a b. fst a < fst b) ?r"
    using names by (simp add: sorted_wrt_map sorted_wrt_filter)
  then show "sorted ?r" "distinct ?r"
    using sorted_pairs_of_names by blast+
  have cnt: "count_list (map (\<lambda>c. name (kind c)) cs) (name t) = length (filter (\<lambda>c. kind c = t) cs)" for t
    by (rule count_list_kind) (rule inj_on_subset [OF inj], simp)
  have pos: "filter (\<lambda>c. kind c = t) cs \<noteq> [] \<longleftrightarrow> t \<in> kind ` set cs" for t
    by (auto simp: filter_empty_conv)
  have l: "set ?l = (\<lambda>c. (name (kind c), length (filter (\<lambda>c'. kind c' = kind c) cs))) ` set cs"
    by (auto simp: set_count_values cnt)
  have r: "set ?r = (\<lambda>t. (name t, length (filter (\<lambda>c. kind c = t) cs))) ` (kind ` set cs)"
    using all by (auto simp: pos)
  show "set ?l = set ?r"
    unfolding l r by (simp add: image_image)
qed

lemma type_counts_sorted:
  "sort (count_values (map (\<lambda>c. ContextType_value (ctx_type c)) cs)) = counts_by_type cs"
  unfolding counts_by_type_def
proof (rule sort_count_values)
  show "sorted_wrt (\<lambda>a b. ContextType_value a < ContextType_value b) TYPES_BY_NAME"
    by (simp add: TYPES_BY_NAME_def)
  show "\<forall>t. t \<in> set TYPES_BY_NAME"
  proof
    fix t show "t \<in> set TYPES_BY_NAME" by (cases t) (simp_all add: TYPES_BY_NAME_def)
  qed
qed

lemma priority_counts_sorted:
  "sort (count_values (map (\<lambda>c. Priority_value (priority c)) cs)) = counts_by_priority cs"
  unfolding counts_by_priority_def
proof (rule sort_count_values)
  show "sorted_wrt (\<lambda>a b. Priority_value a < Priority_value b) PRIORITIES_BY_NAME"
    by (simp add: PRIORITIES_BY_NAME_def)
  show "\<forall>p. p \<in> set PRIORITIES_BY_NAME"
  proof
    fix p show "p \<in> set PRIORITIES_BY_NAME" by (cases p) (simp_all add: PRIORITIES_BY_NAME_def)
  qed
qed

section \<open>Runs of add and update\<close>

lemma set_dict_set: "set (dict_set k v d) \<subseteq> insert (k, v) (set d)"
  by (induction d) auto

lemma updated_item_fixed:
  "ctx_id (updated_item now t c p tg cn x) = ctx_id x \<and>
   ctx_type (updated_item now t c p tg cn x) = ctx_type x \<and>
   created_at (updated_item now t c p tg cn x) = created_at x \<and>
   updated_at (updated_item now t c p tg cn x) = now \<and>
   metadata (updated_item now t c p tg cn x) = metadata x"
  by (simp add: updated_item_def Let_def split: option.splits)

lemma update_context_contexts:
  "get_context s i = Some x \<Longrightarrow>
   contexts (snd (update_context now i t c p tg cn md s)) =
     dict_set i (updated_item now t c p tg cn x) (contexts s)"
  by (simp add: update_context_def updated_item_def Let_def save_contexts_def)

lemma update_context_absent_state: "get_context s i = None \<Longrightarrow> snd (update_context now i t c p tg cn md s) = s"
  by (simp add: update_context_def)

lemma all_dict_set:
  "\<forall>kc \<in> set d. P (snd kc) \<Longrightarrow> P v \<Longrightarrow> \<forall>kc \<in> set (dict_set k v d). P (snd kc)"
  by (induction d) auto

lemma timely_mono: "timely s t0 \<Longrightarrow> t0 \<le> t \<Longrightarrow> timely s t"
  by (fastforce simp: timely_def)

lemma timely_dict_set:
  assumes "timely s t" and "contexts s' = dict_set k v (contexts s)"
    and "dt_key (created_at v) \<le> dt_key (updated_at v)" and "dt_key (updated_at v) \<le> t"
  shows "timely s' t"
  unfolding timely_def assms(2)
  by (rule all_dict_set) (use assms in \<open>simp_all add: timely_def\<close>)

lemma exec_timely:
  assumes "timely s t0" and "t0 \<le> dt_key (call_time c)"
  shows "timely (exec c s) (dt_key (call_time c))"
proof -
  have now: "timely s (dt_key (call_time c))"
    using assms by (rule timely_mono)
  show ?thesis
  proof (cases c)
    case (Add now' t cc ty p tg cn md)
    show ?thesis
      unfolding Add exec.simps call_time.simps
      by (rule timely_dict_set [OF now [unfolded Add call_time.simps] add_context_contexts])
        (simp_all add: new_item_def)
  next
    case (Update now' i t cc p tg cn md)
    show ?thesis
    proof (cases "get_context s i")
      case None
      then show ?thesis
        using now by (simp add: Update update_context_absent_state)
    next
      case (Some x)
      then have "(i, x) \<in> set (contexts s)"
        by (simp add: get_context_def map_of_SomeD)
      then have x: "dt_key (created_at x) \<le> dt_key now'"
        using now by (fastforce simp: timely_def Update)
      show ?thesis
        unfolding Update exec.simps call_time.simps
        by (rule timely_dict_set [OF now [unfolded Update call_time.simps] update_context_contexts [OF Some]])
          (simp_all add: updated_item_fixed x)
    qed
  qed
qed

lemma run_timely:
  "sorted (map (\<lambda>c. dt_key (call_time c)) calls) \<Longrightarrow> timely s t0 \<Longrightarrow>
   \<forall>c \<in> set calls. t0 \<le> dt_key (call_time c) \<Longrightarrow>
   \<exists>t. timely (run calls s) t"
proof (induction calls arbitrary: s t0)
  case Nil
  then show ?case unfolding run.simps by blast
next
  case (Cons c calls)
  have "timely (exec c s) (dt_key (call_time c))"
    using Cons.prems by (intro exec_timely [of s t0]) auto
  moreover have "\<forall>c' \<in> set calls. dt_key (call_time c) \<le> dt_key (call_time c')"
    using Cons.prems by auto
  ultimately show ?case
    using Cons.IH [of "exec c s" "dt_key (call_time c)"] Cons.prems by auto
qed

lemma timely_fresh: "timely (fresh_process d) t"
  by (simp add: timely_def fresh_process_def)

lemma update_keeps_id_created:
  assumes "get_context s k = Some x"
  shows "\<exists>y. get_context (exec (Update now i t c p tg cn md) s) k = Some y \<and>
             ctx_id y = ctx_id x \<and> created_at y = created_at x"
proof (cases "get_context s i")
  case None
  then show ?thesis using assms by (simp add: update_context_absent_state)
next
  case (Some z)
  show ?thesis
  proof (cases "k = i")
    case True
    then show ?thesis
      using assms Some
      by (simp add: get_context_def update_context_contexts [OF Some] map_of_dict_set updated_item_fixed)
  next
    case False
    then show ?thesis
      using assms by (simp add: get_context_def update_context_contexts [OF Some] map_of_dict_set)
  qed
qed

lemma add_keeps_other_items:
  assumes "k \<noteq> context_id_of (case ty of None \<Rightarrow> CONVERSATION | Some x \<Rightarrow> x) now"
  shows "get_context (exec (Add now t c ty p tg cn md) s) k = get_context s k"
  using assms by (simp add: get_context_def add_context_contexts map_of_dict_set)

lemma run_calls_example:
  "contexts (run calls_example (fresh_process None)) =
     [(''conversation_20240305_090701'',
       \<lparr>ctx_id = ''conversation_20240305_090701'', ctx_type = CONVERSATION, title = ''A2'',
        content = ''a'', priority = MEDIUM, created_at = clock1, updated_at = clock3,
        tags = [], connections = [], metadata = 1\<rparr>),
      (''task_20240305_090702'',
       \<lparr>ctx_id = ''task_20240305_090702'', ctx_type = TASK, title = ''B'',
        content = ''b'', priority = MEDIUM, created_at = clock2, updated_at = clock2,
        tags = [], connections = [], metadata = 2\<rparr>)]"
  by (simp add: calls_example_def run_defs)

lemma run_calls_backwards:
  "contexts (run calls_backwards (fresh_process None)) =
     [(''conversation_20240305_090830'',
       \<lparr>ctx_id = ''conversation_20240305_090830'', ctx_type = CONVERSATION, title = ''A2'',
        content = ''a'', priority = MEDIUM, created_at = clock3, updated_at = clock1,
        tags = [], connections = [], metadata = 1\<rparr>)]"
  by (simp add: calls_backwards_def run_defs)

section \<open>Saving and loading\<close>

lemma ContextType_call_value: "ContextType_call (JStr (ContextType_value t)) = Returns t"
  by (cases t) simp_all

lemma Priority_call_value: "Priority_call (JStr (Priority_value p)) = Returns p"
  by (cases p) simp_all

lemma those_as_str: "those (map (as_str \<circ> JStr) xs) = Some xs"
  by (induction xs) simp_all

lemma from_dict_to_dict:
  assumes "fromisoformat (isoformat (created_at c)) = Some (created_at c)"
    and "fromisoformat (isoformat (updated_at c)) = Some (updated_at c)"
  shows "from_dict fromisoformat (to_dict h c) s =
           Returns (c\<lparr>metadata := next_ref s\<rparr>,
                    s\<lparr>heap := (heap s)(next_ref s := h (metadata c)), next_ref := Suc (next_ref s)\<rparr>)"
  using assms
  by (simp add: from_dict_def to_dict_def ContextType_call_value Priority_call_value cls_def
      FIELDS_def those_as_str new_dict_def
      del: ContextType_call.simps Priority_call.simps)

lemma from_items_saved:
  assumes "distinct (map fst cs)" and "fst ` set cs \<inter> fst ` set acc = {}"
    and "\<forall>kc \<in> set cs. fromisoformat (isoformat (created_at (snd kc))) = Some (created_at (snd kc)) \<and>
                        fromisoformat (isoformat (updated_at (snd kc))) = Some (updated_at (snd kc))"
  shows "\<exists>cs' s'. from_items fromisoformat (map (\<lambda>kc. (fst kc, to_dict h (snd kc))) cs) acc s
                     = Returns (acc @ cs', s') \<and>
                   (\<forall>r < next_ref s. heap s' r = heap s r) \<and> disk s' = disk s \<and>
                   list_all2 (\<lambda>kc kc'. fst kc' = fst kc \<and> same_item h (snd kc) (heap s') (snd kc')) cs cs'"
  using assms
proof (induction cs arbitrary: acc s)
  case Nil
  then show ?case by simp
next
  case (Cons kc cs)
  let ?c1 = "(snd kc)\<lparr>metadata := next_ref s\<rparr>"
  let ?s1 = "s\<lparr>heap := (heap s)(next_ref s := h (metadata (snd kc))), next_ref := Suc (next_ref s)\<rparr>"
  have fd: "from_dict fromisoformat (to_dict h (snd kc)) s = Returns (?c1, ?s1)"
    using Cons.prems(3) by (intro from_dict_to_dict) simp_all
  have new: "fst kc \<notin> fst ` set acc"
    using Cons.prems(2) by auto
  have step: "from_items fromisoformat (map (\<lambda>kc. (fst kc, to_dict h (snd kc))) (kc # cs)) acc s =
              from_items fromisoformat (map (\<lambda>kc. (fst kc, to_dict h (snd kc))) cs) (acc @ [(fst kc, ?c1)]) ?s1"
    by (simp add: fd dict_set_new [OF new])
  have "distinct (map fst cs)" using Cons.prems(1) by simp
  moreover have "fst ` set cs \<inter> fst ` set (acc @ [(fst kc, ?c1)]) = {}"
    using Cons.prems(1,2) by auto
  moreover have "\<forall>kc \<in> set cs. fromisoformat (isoformat (created_at (snd kc))) = Some (created_at (snd kc)) \<and>
                        fromisoformat (isoformat (updated_at (snd kc))) = Some (updated_at (snd kc))"
    using Cons.prems(3) by simp
  ultimately obtain cs' s' where
    r: "from_items fromisoformat (map (\<lambda>kc. (fst kc, to_dict h (snd kc))) cs) (acc @ [(fst kc, ?c1)]) ?s1
          = Returns ((acc @ [(fst kc, ?c1)]) @ cs', s')"
    and frame: "\<forall>r < next_ref ?s1. heap s' r = heap ?s1 r" and d: "disk s' = disk ?s1"
    and rest: "list_all2 (\<lambda>kc kc'. fst kc' = fst kc \<and> same_item h (snd kc) (heap s') (snd kc')) cs cs'"
    using Cons.IH [of "acc @ [(fst kc, ?c1)]" ?s1] by blast
  have head: "same_item h (snd kc) (heap s') ?c1"
    using frame by (simp add: same_item_def)
  have "from_items fromisoformat (map (\<lambda>kc. (fst kc, to_dict h (snd kc))) (kc # cs)) acc s
          = Returns (acc @ ((fst kc, ?c1) # cs'), s')"
    using step r by simp
  moreover have "\<forall>r < next_ref s. heap s' r = heap s r"
    using frame by simp
  moreover have "list_all2 (\<lambda>kc kc'. fst kc' = fst kc \<and> same_item h (snd kc) (heap s') (snd kc'))
                   (kc # cs) ((fst kc, ?c1) # cs')"
    using head rest by simp
  ultimately show ?case using d by auto
qed

lemma replicate_numeral_unfold: "replicate (numeral k) x = x # replicate (pred_numeral k) x"
  by (simp add: numeral_eq_Suc)

text \<open>
  The parser \<open>fromisoformat_utc\<close> reads every valid timestamp back from its
  \<open>isoformat\<close> string, so the stores whose timestamps are valid meet what the
  round trip asks of the parser.
\<close>

lemma digit_val_digit_char: "a < 10 \<Longrightarrow> digit_val (digit_char a) = Some a"
proof -
  assume "a < 10"
  then have "a = 0 \<or> a = 1 \<or> a = 2 \<or> a = 3 \<or> a = 4 \<or> a = 5 \<or> a = 6 \<or> a = 7 \<or> a = 8 \<or> a = 9"
    by arith
  then show ?thesis
    by (elim disjE) (simp_all add: digit_val_def digit_char_def)
qed

lemma digit_char_0: "CHR ''0'' = digit_char 0"
  by (simp add: digit_char_def)

lemma str_nat_1: "n < 10 \<Longrightarrow> str_nat n = [digit_char n]"
  by (simp add: str_nat.simps)

lemma str_nat_2: "10 \<le> n \<Longrightarrow> n < 100 \<Longrightarrow> str_nat n = [digit_char (n div 10), digit_char (n mod 10)]"
  by (subst str_nat.simps) (simp add: str_nat_1)

lemma str_nat_3:
  "100 \<le> n \<Longrightarrow> n < 1000 \<Longrightarrow>
   str_nat n = [digit_char (n div 100), digit_char (n div 10 mod 10), digit_char (n mod 10)]"
  by (subst str_nat.simps) (simp add: str_nat_2 div_mult2_eq [symmetric])

lemma str_nat_4:
  "1000 \<le> n \<Longrightarrow> n < 10000 \<Longrightarrow>
   str_nat n = [digit_char (n div 1000), digit_char (n div 100 mod 10), digit_char (n div 10 mod 10),
                digit_char (n mod 10)]"
  by (subst str_nat.simps) (simp add: str_nat_3 div_mult2_eq [symmetric])

lemma str_nat_5:
  "10000 \<le> n \<Longrightarrow> n < 100000 \<Longrightarrow>
   str_nat n = [digit_char (n div 10000), digit_char (n div 1000 mod 10), digit_char (n div 100 mod 10),
                digit_char (n div 10 mod 10), digit_char (n mod 10)]"
  by (subst str_nat.simps) (simp add: str_nat_4 div_mult2_eq [symmetric])

lemma str_nat_6:
  "100000 \<le> n \<Longrightarrow> n < 1000000 \<Longrightarrow>
   str_nat n = [digit_char (n div 100000), digit_char (n div 10000 mod 10),
                digit_char (n div 1000 mod 10), digit_char (n div 100 mod 10),
                digit_char (n div 10 mod 10), digit_char (n mod 10)]"
  by (subst str_nat.simps) (simp add: str_nat_5 div_mult2_eq [symmetric])

lemma pad2_digits: "n < 100 \<Longrightarrow> pad2 n = [digit_char (n div 10), digit_char (n mod 10)]"
  by (cases "n < 10") (simp_all add: pad2_def zfill_def str_nat_1 str_nat_2 digit_char_0)

lemma pad4_digits:
  "n < 10000 \<Longrightarrow>
   pad4 n = [digit_char (n div 1000), digit_char (n div 100 mod 10), digit_char (n div 10 mod 10),
             digit_char (n mod 10)]"
proof -
  assume "n < 10000"
  then consider "n < 10" | "10 \<le> n" "n < 100" | "100 \<le> n" "n < 1000" | "1000 \<le> n" "n < 10000"
    by linarith
  then show ?thesis
    by cases
      (simp_all add: pad4_def zfill_def str_nat_1 str_nat_2 str_nat_3 str_nat_4 digit_char_0
        replicate_numeral_unfold)
qed

lemma pad6_digits:
  "n < 1000000 \<Longrightarrow>
   pad6 n = [digit_char (n div 100000), digit_char (n div 10000 mod 10),
             digit_char (n div 1000 mod 10), digit_char (n div 100 mod 10),
             digit_char (n div 10 mod 10), digit_char (n mod 10)]"
proof -
  assume "n < 1000000"
  then consider "n < 10" | "10 \<le> n" "n < 100" | "100 \<le> n" "n < 1000" | "1000 \<le> n" "n < 10000"
    | "10000 \<le> n" "n < 100000" | "100000 \<le> n" "n < 1000000"
    by linarith
  then show ?thesis
    by cases
      (simp_all add: pad6_def zfill_def str_nat_1 str_nat_2 str_nat_3 str_nat_4 str_nat_5 str_nat_6
        digit_char_0 replicate_numeral_unfold)
qed

lemma nat_of_2_digits:
  "n < 100 \<Longrightarrow> nat_of_digits [digit_char (n div 10), digit_char (n mod 10)] = Some n"
proof -
  assume "n < 100"
  then have "n div 10 < 10" by arith
  then show ?thesis
    by (simp add: nat_of_digits_def digit_val_digit_char)
qed

lemma digit_step: "10 * (n div (k * 10)) + n div k mod 10 = (n div k :: nat)"
  by (simp add: div_mult2_eq)

lemma nat_of_4_digits:
  "n < 10000 \<Longrightarrow>
   nat_of_digits [digit_char (n div 1000), digit_char (n div 100 mod 10), digit_char (n div 10 mod 10),
                  digit_char (n mod 10)] = Some n"
proof -
  assume "n < 10000"
  then have "n div 1000 < 10" by arith
  moreover have "10 * (10 * (10 * (n div 1000) + n div 100 mod 10) + n div 10 mod 10) + n mod 10 = n"
    using digit_step [of n 100] digit_step [of n 10] digit_step [of n 1] by simp
  ultimately show ?thesis
    by (simp add: nat_of_digits_def digit_val_digit_char)
qed

lemma nat_of_6_digits:
  "n < 1000000 \<Longrightarrow>
   nat_of_digits [digit_char (n div 100000), digit_char (n div 10000 mod 10),
                  digit_char (n div 1000 mod 10), digit_char (n div 100 mod 10),
                  digit_char (n div 10 mod 10), digit_char (n mod 10)] = Some n"
proof -
  assume "n < 1000000"
  then have "n div 100000 < 10" by arith
  moreover have "10 * (10 * (10 * (10 * (10 * (n div 100000) + n div 10000 mod 10) + n div 1000 mod 10)
                   + n div 100 mod 10) + n div 10 mod 10) + n mod 10 = n"
    using digit_step [of n 10000] digit_step [of n 1000] digit_step [of n 100] digit_step [of n 10]
      digit_step [of n 1] by simp
  ultimately show ?thesis
    by (simp add: nat_of_digits_def digit_val_digit_char)
qed

lemma fromisoformat_utc_isoformat:
  assumes "valid_datetime t"
  shows "fromisoformat_utc (isoformat t) = Some t"
proof -
  have b: "year t < 10000" "month t < 100" "day t < 100" "hour t < 100" "minute t < 100"
    "second t < 100" "microsecond t < 1000000"
    using assms by (auto simp: valid_datetime_def days_in_month_def split: if_splits)
  show ?thesis
  proof (cases "microsecond t = 0")
    case True
    then have r: "\<lparr>year = year t, month = month t, day = day t, hour = hour t, minute = minute t,
                    second = second t, microsecond = 0\<rparr> = t"
      by (cases t) simp
    show ?thesis
      using assms True
      by (simp add: isoformat_def fromisoformat_utc_def b pad2_digits pad4_digits
          nat_of_2_digits nat_of_4_digits r Let_def)
  next
    case False
    have r: "\<lparr>year = year t, month = month t, day = day t, hour = hour t, minute = minute t,
               second = second t, microsecond = microsecond t\<rparr> = t"
      by (cases t) simp
    show ?thesis
      using assms False
      by (simp add: isoformat_def fromisoformat_utc_def b pad2_digits pad4_digits pad6_digits
          nat_of_2_digits nat_of_4_digits nat_of_6_digits r Let_def)
  qed
qed

lemma isoformat_clock1: "isoformat clock1 = ''2024-03-05T09:07:01.000250+00:00''"
  by (simp add: isoformat_def clock1_def pad2_def pad4_def pad6_def zfill_def str_nat.simps digit_char_def
      replicate_numeral_unfold)

lemma fromisoformat_clock1: "fromisoformat_utc (isoformat clock1) = Some clock1"
  unfolding isoformat_clock1
  by (simp add: fromisoformat_utc_def nat_of_digits_def digit_val_def valid_datetime_def
      days_in_month_def is_leap_def clock1_def)

section \<open>Files that do not load\<close>

lemma ContextType_call_Returns: "ContextType_call v = Returns t \<Longrightarrow> v = JStr (ContextType_value t)"
  by (cases v; cases t) (auto split: if_splits)

lemma Priority_call_Returns: "Priority_call v = Returns p \<Longrightarrow> v = JStr (Priority_value p)"
  by (cases v; cases p) (auto split: if_splits)

lemma ContextType_call_not_Untyped: "ContextType_call v \<noteq> Untyped"
  by (cases v) (auto split: option.splits)

lemma Priority_call_not_Untyped: "Priority_call v \<noteq> Untyped"
  by (cases v) (auto split: option.splits)

lemma call_fromisoformat_cases:
  "call_fromisoformat f v = Returns t \<Longrightarrow> \<exists>x. v = JStr x \<and> f x = Some t"
  "call_fromisoformat f v \<noteq> Untyped"
  by (cases v; auto split: option.splits)+

lemma getitem_not_Untyped: "getitem d k \<noteq> Untyped"
  by (cases d) (auto split: option.splits)

lemma and_then_cases:
  "and_then m f = Returns y \<Longrightarrow> \<exists>x. m = Returns x \<and> f x = Returns y"
  "and_then m f = Untyped \<Longrightarrow> m = Untyped \<or> (\<exists>x. m = Returns x \<and> f x = Untyped)"
  by (cases m; simp)+

lemma from_dict_not_raising:
  assumes "\<forall>e. from_dict f d s \<noteq> Raises e"
  shows "(\<exists>t. getitem d ''type'' = Returns (JStr (ContextType_value t))) \<and>
         (\<exists>p. getitem d ''priority'' = Returns (JStr (Priority_value p))) \<and>
         (\<exists>x t. getitem d ''created_at'' = Returns (JStr x) \<and> f x = Some t) \<and>
         (\<exists>x t. getitem d ''updated_at'' = Returns (JStr x) \<and> f x = Some t)"
proof -
  obtain v1 where v1: "getitem d ''created_at'' = Returns v1"
    using assms getitem_not_Untyped [of d "''created_at''"]
    by (cases "getitem d ''created_at''") (auto simp: from_dict_def)
  obtain t1 where t1: "call_fromisoformat f v1 = Returns t1"
    using assms call_fromisoformat_cases(2) [of f v1]
    by (cases "call_fromisoformat f v1") (auto simp: from_dict_def v1)
  obtain v2 where v2: "getitem d ''updated_at'' = Returns v2"
    using assms getitem_not_Untyped [of d "''updated_at''"]
    by (cases "getitem d ''updated_at''") (auto simp: from_dict_def v1 t1)
  obtain t2 where t2: "call_fromisoformat f v2 = Returns t2"
    using assms call_fromisoformat_cases(2) [of f v2]
    by (cases "call_fromisoformat f v2") (auto simp: from_dict_def v1 t1 v2)
  obtain v3 where v3: "getitem d ''type'' = Returns v3"
    using assms getitem_not_Untyped [of d "''type''"]
    by (cases "getitem d ''type''") (auto simp: from_dict_def v1 t1 v2 t2)
  obtain ty where ty: "ContextType_call v3 = Returns ty"
    using assms ContextType_call_not_Untyped [of v3]
    by (cases "ContextType_call v3") (auto simp: from_dict_def v1 t1 v2 t2 v3)
  obtain v4 where v4: "getitem d ''priority'' = Returns v4"
    using assms getitem_not_Untyped [of d "''priority''"]
    by (cases "getitem d ''priority''") (auto simp: from_dict_def v1 t1 v2 t2 v3 ty)
  obtain pr where pr: "Priority_call v4 = Returns pr"
    using assms Priority_call_not_Untyped [of v4]
    by (cases "Priority_call v4") (auto simp: from_dict_def v1 t1 v2 t2 v3 ty v4)
  show ?thesis
    using v1 v2 v3 v4 call_fromisoformat_cases(1) [OF t1] call_fromisoformat_cases(1) [OF t2]
      ContextType_call_Returns [OF ty] Priority_call_Returns [OF pr]
    by auto
qed

lemma bad_item_raises:
  assumes "unknown_type d \<or> unknown_priority d \<or> unparseable_timestamp f d"
  shows "\<exists>e. from_dict f d s = Raises e"
proof (rule ccontr)
  assume "\<not> (\<exists>e. from_dict f d s = Raises e)"
  then have "\<forall>e. from_dict f d s \<noteq> Raises e" by simp
  from from_dict_not_raising [OF this] assms show False
    by (auto simp: unknown_type_def unknown_priority_def unparseable_timestamp_def)
qed

lemma from_items_raises:
  assumes "kd \<in> set items" and "\<And>s. \<exists>e. from_dict f (snd kd) s = Raises e"
  shows "\<exists>e. from_items f items acc s = Raises e"
  using assms(1)
proof (induction items arbitrary: acc s)
  case Nil
  then show ?case by simp
next
  case (Cons x items)
  show ?case
  proof (cases "from_dict f (snd x) s")
    case (Raises e)
    then show ?thesis by simp
  next
    case (Returns r)
    then have "x \<noteq> kd" using assms(2) [of s] by auto
    then have "kd \<in> set items" using Cons.prems by auto
    from Cons.IH [OF this] show ?thesis by (simp add: Returns)
  next
    case Untyped
    then have "x \<noteq> kd" using assms(2) [of s] by auto
    then have "kd \<in> set items" using Cons.prems by auto
    from Cons.IH [OF this, of acc s] show ?thesis by (auto simp: Untyped)
  qed
qed

lemma load_contexts_raised:
  "disk p = Some f \<Longrightarrow> load_try parse f (p\<lparr>contexts := []\<rparr>) = Raises e \<Longrightarrow>
   ContextManager_init parse p = Returns (p\<lparr>contexts := []\<rparr>)"
  by (simp add: ContextManager_init_def load_contexts_def)

lemma unknown_type_bad_item: "unknown_type bad_item"
proof -
  have "''meeting'' \<noteq> ContextType_value t" for t
    by (cases t) simp_all
  then show ?thesis
    by (simp add: unknown_type_def bad_item_def)
qed

section \<open>Every item holds a metadata dict of its own\<close>

lemma dict_set_distinct_fresh:
  "distinct (map f d) \<Longrightarrow> f (k, v) \<notin> f ` set d \<Longrightarrow> distinct (map f (dict_set k v d))"
proof (induction d)
  case Nil
  then show ?case by simp
next
  case (Cons p d)
  have "f p \<notin> f ` set (dict_set k v d)" if "fst p \<noteq> k"
    using Cons.prems set_dict_set [of k v d] by auto
  then show ?case
    using Cons by auto
qed

lemma dict_set_same_image:
  "map_of d k = Some x \<Longrightarrow> g v = g x \<Longrightarrow>
   map (\<lambda>kc. g (snd kc)) (dict_set k v d) = map (\<lambda>kc. g (snd kc)) d"
  by (induction d) auto

lemma separate_dict_set_fresh:
  assumes "separate s" and "contexts s' = dict_set k v (contexts s)"
    and "metadata v = next_ref s" and "next_ref s' = Suc (next_ref s)"
  shows "separate s'"
proof -
  have below: "\<forall>kc \<in> set (contexts s). metadata (snd kc) < next_ref s"
    using assms(1) by (simp add: separate_def list_all_iff)
  then have "(\<lambda>kc. metadata (snd kc)) (k, v) \<notin> (\<lambda>kc. metadata (snd kc)) ` set (contexts s)"
    using assms(3) by auto
  then have "distinct (map (\<lambda>kc. metadata (snd kc)) (dict_set k v (contexts s)))"
    using assms(1) by (intro dict_set_distinct_fresh) (simp_all add: separate_def)
  moreover have "\<forall>kc \<in> set (dict_set k v (contexts s)). metadata (snd kc) < Suc (next_ref s)"
    using below assms(3) by (intro all_dict_set) auto
  ultimately show ?thesis
    by (simp add: separate_def assms(2,4) list_all_iff)
qed

lemma separate_add: "separate s \<Longrightarrow> separate (snd (add_context now t c tyo p tg cn md s))"
  by (rule separate_dict_set_fresh [OF _ add_context_contexts])
    (simp_all add: new_item_def add_context_next_ref)

lemma update_context_next_ref:
  "next_ref (snd (update_context now i t c p tg cn md s)) = next_ref s"
  by (simp add: update_context_def Let_def save_contexts_def split: option.splits)

lemma separate_update: "separate s \<Longrightarrow> separate (snd (update_context now i t c p tg cn md s))"
proof (cases "get_context s i")
  case None
  then show "separate s \<Longrightarrow> ?thesis" by (simp add: update_context_absent_state)
next
  case (Some x)
  have "map (\<lambda>kc. metadata (snd kc)) (dict_set i (updated_item now t c p tg cn x) (contexts s)) =
        map (\<lambda>kc. metadata (snd kc)) (contexts s)"
    using Some by (intro dict_set_same_image) (simp_all add: get_context_def updated_item_fixed)
  then have m: "map (\<lambda>kc. metadata (snd kc)) (contexts (snd (update_context now i t c p tg cn md s))) =
        map (\<lambda>kc. metadata (snd kc)) (contexts s)"
    by (simp add: update_context_contexts [OF Some])
  have "list_all (\<lambda>kc. metadata (snd kc) < n) cs = list_all (\<lambda>r. r < n) (map (\<lambda>kc. metadata (snd kc)) cs)"
    for n and cs :: "(string \<times> ContextItem) list"
    by (simp add: list_all_iff)
  then show "separate s \<Longrightarrow> ?thesis"
    by (simp add: separate_def m update_context_next_ref)
qed

lemma separate_run: "separate s \<Longrightarrow> separate (run calls s)"
proof (induction calls arbitrary: s)
  case Nil
  then show ?case by simp
next
  case (Cons c calls)
  have "separate (exec c s)"
    using Cons.prems by (cases c) (simp_all add: separate_add separate_update)
  then show ?case
    by (simp add: Cons.IH)
qed

lemma cls_ref:
  "cls d created updated ty pr s = Returns (c, s') \<Longrightarrow>
   metadata c = next_ref s \<and> next_ref s' = Suc (next_ref s)"
  by (auto simp: cls_def new_dict_def split: if_splits option.splits)

lemma from_dict_ref:
  assumes "from_dict f data s = Returns (c, s')"
  shows "metadata c = next_ref s \<and> next_ref s' = Suc (next_ref s)"
proof -
  obtain d created updated ty pr where "cls d created updated ty pr s = Returns (c, s')"
    using assms unfolding from_dict_def
    by (auto dest!: and_then_cases(1) split: json.splits)
  then show ?thesis by (rule cls_ref)
qed

lemma from_items_separate:
  assumes "from_items f items acc s = Returns (cs', s')"
    and "distinct (map (\<lambda>kc. metadata (snd kc)) acc)"
    and "\<forall>kc \<in> set acc. metadata (snd kc) < next_ref s"
  shows "distinct (map (\<lambda>kc. metadata (snd kc)) cs') \<and>
         (\<forall>kc \<in> set cs'. metadata (snd kc) < next_ref s')"
  using assms
proof (induction items arbitrary: acc s)
  case Nil
  then show ?case by simp
next
  case (Cons kv rest)
  obtain c s1 where fd: "from_dict f (snd kv) s = Returns (c, s1)"
    using Cons.prems(1) by (cases "from_dict f (snd kv) s") (auto split: outcome.splits)
  then have rest: "from_items f rest (dict_set (fst kv) c acc) s1 = Returns (cs', s')"
    using Cons.prems(1) by simp
  have ref: "metadata c = next_ref s" "next_ref s1 = Suc (next_ref s)"
    using from_dict_ref [OF fd] by simp_all
  have "(\<lambda>kc. metadata (snd kc)) (fst kv, c) \<notin> (\<lambda>kc. metadata (snd kc)) ` set acc"
    using Cons.prems(3) ref by auto
  then have "distinct (map (\<lambda>kc. metadata (snd kc)) (dict_set (fst kv) c acc))"
    using Cons.prems(2) by (intro dict_set_distinct_fresh)
  moreover have "\<forall>kc \<in> set (dict_set (fst kv) c acc). metadata (snd kc) < next_ref s1"
    using Cons.prems(3) ref by (intro all_dict_set) auto
  ultimately show ?case
    using Cons.IH [OF rest] by blast
qed

lemma separate_init:
  assumes "ContextManager_init f p = Returns s0"
  shows "separate s0"
proof (cases "disk p")
  case None
  then show ?thesis
    using assms by (auto simp: ContextManager_init_def load_contexts_def separate_def)
next
  case (Some fl)
  show ?thesis
  proof (cases "load_try f fl (p\<lparr>contexts := []\<rparr>)")
    case (Raises e)
    then show ?thesis
      using assms Some by (auto simp: ContextManager_init_def load_contexts_def separate_def)
  next
    case Untyped
    then show ?thesis
      using assms Some by (simp add: ContextManager_init_def load_contexts_def)
  next
    case (Returns s1)
    then have s1: "s1 = s0"
      using assms Some by (simp add: ContextManager_init_def load_contexts_def)
    obtain items cs' s' where
      "from_items f items [] (p\<lparr>contexts := []\<rparr>) = Returns (cs', s')" "s1 = s'\<lparr>contexts := cs'\<rparr>"
      using Returns by (cases "(f, fl, p\<lparr>contexts := []\<rparr>)" rule: load_try.cases)
        (auto split: outcome.splits)
    then show ?thesis
      using from_items_separate [of f items "[]" "p\<lparr>contexts := []\<rparr>" cs' s'] s1
      by (auto simp: separate_def list_all_iff)
  qed
qed

lemma separate_other:
  assumes "separate s" and "get_context s i = Some x" and "get_context s k = Some y" and "k \<noteq> i"
  shows "metadata y \<noteq> metadata x"
proof -
  have mem: "(i, x) \<in> set (contexts s)" "(k, y) \<in> set (contexts s)"
    using assms(2,3) by (simp_all add: get_context_def map_of_SomeD)
  have inj: "inj_on (\<lambda>kc. metadata (snd kc)) (set (contexts s))"
    using assms(1) by (simp add: separate_def distinct_map)
  show ?thesis
  proof
    assume "metadata y = metadata x"
    then have "(k, y) = (i, x)"
      using inj_onD [OF inj, of "(k, y)" "(i, x)"] mem by simp
    then show False
      using assms(4) by simp
  qed
qed

section \<open>The claims\<close>

text \<open>
  C3. Two calls of add with the same type, at clock readings that agree from the year
  down to the second, build the same ID, which is the value of the type, an underscore
  and the reading as \<open>YYYYMMDD_HHMMSS\<close>. Both calls report that ID, the second one
  leaves the store with the keys and the size that the first one left, and the item
  under the ID is the one of the second call.
\<close>

theorem same_second_collides:
  assumes "year a = year b" "month a = month b" "day a = day b"
    "hour a = hour b" "minute a = minute b" "second a = second b"
  shows "context_id_of ty a = context_id_of ty b \<and>
         context_id_of ty a =
           ContextType_value ty @ ''_'' @ pad4 (year a) @ pad2 (month a) @ pad2 (day a) @ ''_'' @
           pad2 (hour a) @ pad2 (minute a) @ pad2 (second a) \<and>
         (let ty' = (case tyo of None \<Rightarrow> CONVERSATION | Some t \<Rightarrow> t);
              r1 = add_context a title1 content1 tyo p1 tags1 conns1 meta1 s;
              r2 = add_context b title2 content2 tyo p2 tags2 conns2 meta2 (snd r1)
          in fst r1 = MARK_OK @ '' Context '' @ [CHR 0x27] @ title1 @ [CHR 0x27] @
                        '' added with ID: '' @ context_id_of ty' a \<and>
             fst r2 = MARK_OK @ '' Context '' @ [CHR 0x27] @ title2 @ [CHR 0x27] @
                        '' added with ID: '' @ context_id_of ty' a \<and>
             length (contexts (snd r2)) = length (contexts (snd r1)) \<and>
             map fst (contexts (snd r2)) = map fst (contexts (snd r1)) \<and>
             map_option (\<lambda>c. (title c, content c, created_at c))
                 (get_context (snd r2) (context_id_of ty' a))
               = Some (title2, content2, b))"
proof -
  have id: "context_id_of t b = context_id_of t a" for t
    using assms by (simp add: context_id_of_def strftime_id_def)
  have form: "context_id_of ty a =
           ContextType_value ty @ ''_'' @ pad4 (year a) @ pad2 (month a) @ pad2 (day a) @ ''_'' @
           pad2 (hour a) @ pad2 (minute a) @ pad2 (second a)"
    by (simp add: context_id_of_def strftime_id_def)
  show ?thesis
    unfolding Let_def
    by (simp only: id form [symmetric] add_context_fst add_context_contexts get_context_def)
      (simp add: map_of_dict_set keys_dict_set length_dict_set map_fst_dict_set_known new_item_def)
qed

theorem same_second_collides_witness:
  "year clock1 = year clock1b \<and> month clock1 = month clock1b \<and> day clock1 = day clock1b \<and>
   hour clock1 = hour clock1b \<and> minute clock1 = minute clock1b \<and> second clock1 = second clock1b \<and>
   context_id_of TASK clock1 = context_id_of TASK clock1b \<and>
   context_id_of TASK clock1 =
     ContextType_value TASK @ ''_'' @ pad4 (year clock1) @ pad2 (month clock1) @ pad2 (day clock1) @
     ''_'' @ pad2 (hour clock1) @ pad2 (minute clock1) @ pad2 (second clock1) \<and>
   (let ty' = (case Some TASK of None \<Rightarrow> CONVERSATION | Some t \<Rightarrow> t);
        r1 = add_context clock1 ''first'' ''one'' (Some TASK) None None None None store_one;
        r2 = add_context clock1b ''second'' ''two'' (Some TASK) (Some HIGH) None None None (snd r1)
    in fst r1 = MARK_OK @ '' Context '' @ [CHR 0x27] @ ''first'' @ [CHR 0x27] @
                  '' added with ID: '' @ context_id_of ty' clock1 \<and>
       fst r2 = MARK_OK @ '' Context '' @ [CHR 0x27] @ ''second'' @ [CHR 0x27] @
                  '' added with ID: '' @ context_id_of ty' clock1 \<and>
       length (contexts (snd r2)) = length (contexts (snd r1)) \<and>
       map fst (contexts (snd r2)) = map fst (contexts (snd r1)) \<and>
       map_option (\<lambda>c. (title c, content c, created_at c))
           (get_context (snd r2) (context_id_of ty' clock1))
         = Some (''second'', ''two'', clock1b))"
proof -
  have h: "year clock1 = year clock1b" "month clock1 = month clock1b" "day clock1 = day clock1b"
    "hour clock1 = hour clock1b" "minute clock1 = minute clock1b" "second clock1 = second clock1b"
    by (simp_all add: clock1_def clock1b_def)
  show ?thesis
    by (intro conjI h)
      (rule same_second_collides [OF h, THEN conjunct1],
       rule same_second_collides [OF h, THEN conjunct2, THEN conjunct1],
       rule same_second_collides [OF h, THEN conjunct2, THEN conjunct2])
qed

lemma context_id_example: "context_id_of TASK clock1b = ''task_20240305_090701''"
  by (simp add: run_defs)

text \<open>
  C4. For an ID that the store does not hold, update returns the not-found message
  and the very state it was given: mapping, metadata dicts and file, whatever the
  optional arguments are.
\<close>

theorem update_absent_unchanged:
  "get_context s context_id = None \<Longrightarrow>
   update_context now context_id title' content' priority' tags' connections' metadata' s =
     (MARK_FAIL @ '' Context '' @ [CHR 0x27] @ context_id @ [CHR 0x27] @ '' not found'', s)"
  by (simp add: update_context_def)

theorem update_absent_unchanged_witness:
  "get_context store_one ''task_20240305_090701'' = None \<and>
   update_context clock2 ''task_20240305_090701'' (Some ''T'') None (Some HIGH) None None
       (Some [(''k'', JNull)]) store_one =
     (MARK_FAIL @ '' Context '' @ [CHR 0x27] @ ''task_20240305_090701'' @ [CHR 0x27] @ '' not found'',
      store_one)"
proof -
  have h: "get_context store_one ''task_20240305_090701'' = None"
    by (simp add: get_context_def store_one_contexts)
  show ?thesis
    by (rule conjI [OF h update_absent_unchanged [OF h]])
qed

text \<open>
  C5. For an item that the store holds and a mapping \<open>m\<close>, update with only the
  metadata argument leaves every field of the item as it was but \<open>updated_at\<close>, which
  is the clock reading, and the item's metadata dict then maps every key of \<open>m\<close> to
  the value \<open>m\<close> gives it and every other key to what it mapped to before.
\<close>

theorem update_metadata_merges:
  assumes "get_context s context_id = Some c" and "distinct (map fst m)"
  shows "get_context (snd (update_context now context_id None None None None None (Some m) s)) context_id
           = Some (c\<lparr>updated_at := now\<rparr>) \<and>
         (\<forall>k. map_of (heap (snd (update_context now context_id None None None None None (Some m) s))
                         (metadata c)) k =
           (case map_of m k of None \<Rightarrow> map_of (heap s (metadata c)) k | Some v \<Rightarrow> Some v))"
  using assms
  by (simp add: update_context_def get_context_def save_contexts_def map_of_dict_set map_of_dict_update
      map_add_def Let_def)

theorem update_metadata_merges_witness:
  "get_context store_one ''conversation_20240305_090701'' =
     Some \<lparr>ctx_id = ''conversation_20240305_090701'', ctx_type = CONVERSATION, title = ''Plan'',
        content = ''write the plan'', priority = MEDIUM, created_at = clock1, updated_at = clock1,
        tags = [''work''], connections = [], metadata = 1\<rparr> \<and>
   distinct (map fst [(''k'', JStr ''v''), (''z'', JBool True)]) \<and>
   get_context (snd (update_context clock2 ''conversation_20240305_090701'' None None None None None
       (Some [(''k'', JStr ''v''), (''z'', JBool True)]) store_one)) ''conversation_20240305_090701''
     = Some \<lparr>ctx_id = ''conversation_20240305_090701'', ctx_type = CONVERSATION, title = ''Plan'',
        content = ''write the plan'', priority = MEDIUM, created_at = clock1, updated_at = clock2,
        tags = [''work''], connections = [], metadata = 1\<rparr> \<and>
   heap (snd (update_context clock2 ''conversation_20240305_090701'' None None None None None
       (Some [(''k'', JStr ''v''), (''z'', JBool True)]) store_one)) 1
     = [(''a'', JInt 1), (''k'', JStr ''v''), (''z'', JBool True)] \<and>
   (\<forall>k. map_of (heap (snd (update_context clock2 ''conversation_20240305_090701'' None None None None None
       (Some [(''k'', JStr ''v''), (''z'', JBool True)]) store_one)) 1) k =
      (case map_of [(''k'', JStr ''v''), (''z'', JBool True)] k of
         None \<Rightarrow> map_of [(''a'', JInt 1), (''k'', JNull)] k | Some v \<Rightarrow> Some v))"
proof -
  let ?c = "\<lparr>ctx_id = ''conversation_20240305_090701'', ctx_type = CONVERSATION, title = ''Plan'',
        content = ''write the plan'', priority = MEDIUM, created_at = clock1, updated_at = clock1,
        tags = [''work''], connections = [], metadata = 1\<rparr>"
  have h1: "get_context store_one ''conversation_20240305_090701'' = Some ?c"
    by (simp add: get_context_def store_one_contexts)
  have h2: "distinct (map fst [(''k'', JStr ''v''), (''z'', JBool True)])"
    by simp
  have heap: "heap (snd (update_context clock2 ''conversation_20240305_090701'' None None None None None
       (Some [(''k'', JStr ''v''), (''z'', JBool True)]) store_one)) 1
     = [(''a'', JInt 1), (''k'', JStr ''v''), (''z'', JBool True)]"
    by (simp add: update_context_def h1 Let_def save_contexts_def store_one_heap [unfolded One_nat_def] dict_update_def)
  from update_metadata_merges [OF h1 h2, of clock2] h1 h2 heap show ?thesis
    by (simp add: store_one_heap [unfolded One_nat_def])
qed

text \<open>
  C1. For every title and content, every optional type, priority, tags, connections
  and metadata, and every state of the store: add reports the ID made of the type and
  the clock reading; under that ID the store then holds an item with this ID, with
  the type, title, content, priority, tags, connections and metadata that were given,
  and with the type \<open>conversation\<close>, the priority \<open>medium\<close>, no tags, no connections
  and the empty metadata mapping where they were omitted; and get\_details on that ID
  returns the text that shows these values.
\<close>

theorem add_then_details_equal_inputs:
  "(let ty = (case context_type' of None \<Rightarrow> CONVERSATION | Some v \<Rightarrow> v);
        pr = (case priority' of None \<Rightarrow> MEDIUM | Some v \<Rightarrow> v);
        tg = (case tags' of None \<Rightarrow> [] | Some v \<Rightarrow> v);
        cn = (case connections' of None \<Rightarrow> [] | Some v \<Rightarrow> v);
        md = (case metadata' of None \<Rightarrow> [] | Some v \<Rightarrow> v);
        context_id = context_id_of ty now;
        r = add_context now title' content' context_type' priority' tags' connections' metadata' s
    in fst r = MARK_OK @ '' Context '' @ [CHR 0x27] @ title' @ [CHR 0x27] @ '' added with ID: '' @
                 context_id \<and>
       map_option
           (\<lambda>c. (ctx_id c, ctx_type c, title c, content c, priority c, tags c, connections c,
                 heap (snd r) (metadata c)))
           (get_context (snd r) context_id)
         = Some (context_id, ty, title', content', pr, tg, cn, md) \<and>
       get_context_details str_value (snd r) context_id =
         join NL
           ([MARK_DETAILS @ '' Context Details: '' @ title' @ NL,
             ''**ID:** '' @ context_id,
             ''**Type:** '' @ ContextType_value ty,
             ''**Priority:** '' @ Priority_value pr,
             ''**Created:** '' @ strftime_utc now,
             ''**Updated:** '' @ strftime_utc now] @
            (if tg \<noteq> [] then [''**Tags:** '' @ join '', '' tg] else []) @
            (if cn \<noteq> [] then [''**Connected to:** '' @ join '', '' cn] else []) @
            [NL @ ''**Content:**'' @ NL @ content'] @
            (if md \<noteq> []
             then (NL @ ''**Metadata:**'') #
                  map (\<lambda>kv. ''  '' @ fst kv @ '': '' @ str_value (snd kv)) md
             else [])))"
  unfolding Let_def
  by (simp only: add_context_fst add_context_contexts add_context_heap get_context_def
      get_context_details_def map_of_dict_set)
    (simp add: new_item_def)

text \<open>
  C10. Let the store be in a state that the program reaches: it was constructed, from
  any file or none, and any add and update calls were served, with any arguments given
  or omitted. Then an update of an item that the store holds under the ID \<open>i\<close>
  succeeds, and every item under another ID is afterwards the item it was, with the
  metadata mapping it had.
\<close>

theorem update_leaves_other_items:
  assumes "ContextManager_init fromisoformat p = Returns s0"
    and "get_context (run calls s0) i = Some x"
    and "get_context (run calls s0) k = Some y"
    and "k \<noteq> i"
  shows "fst (update_context now i t c pr tg cn md (run calls s0)) =
           MARK_OK @ '' Context '' @ [CHR 0x27] @ (case t of None \<Rightarrow> title x | Some v \<Rightarrow> v) @
           [CHR 0x27] @ '' updated successfully'' \<and>
         get_context (snd (update_context now i t c pr tg cn md (run calls s0))) k = Some y \<and>
         heap (snd (update_context now i t c pr tg cn md (run calls s0))) (metadata y) =
           heap (run calls s0) (metadata y)"
proof -
  have "separate (run calls s0)"
    by (rule separate_run [OF separate_init [OF assms(1)]])
  then have other: "metadata y \<noteq> metadata x"
    using assms(2,3,4) by (rule separate_other)
  have "fst (update_context now i t c pr tg cn md (run calls s0)) =
           MARK_OK @ '' Context '' @ [CHR 0x27] @ (case t of None \<Rightarrow> title x | Some v \<Rightarrow> v) @
           [CHR 0x27] @ '' updated successfully''"
    using assms(2) by (simp add: update_context_def Let_def split: option.splits)
  moreover have "get_context (snd (update_context now i t c pr tg cn md (run calls s0))) k = Some y"
    using assms(3,4) by (simp add: get_context_def update_context_contexts [OF assms(2)] map_of_dict_set)
  moreover have "heap (snd (update_context now i t c pr tg cn md (run calls s0))) (metadata y) =
           heap (run calls s0) (metadata y)"
    using assms(2) other
    by (simp add: update_context_def Let_def save_contexts_def split: option.splits)
  ultimately show ?thesis by blast
qed

theorem update_leaves_other_items_witness:
  "ContextManager_init fromisoformat_utc (fresh_process None) = Returns (fresh_process None) \<and>
   run [Add clock1 ''A'' ''a'' None None None None None,
        Add clock2 ''B'' ''b'' (Some TASK) None None None None] (fresh_process None) = store_two \<and>
   map_option (\<lambda>c. (title c, heap store_two (metadata c)))
       (get_context store_two ''conversation_20240305_090701'') = Some (''A'', []) \<and>
   map_option (\<lambda>c. (title c, metadata c, heap store_two (metadata c)))
       (get_context store_two ''task_20240305_090702'') = Some (''B'', 2, []) \<and>
   ''task_20240305_090702'' \<noteq> ''conversation_20240305_090701'' \<and>
   fst (update_context clock3 ''conversation_20240305_090701'' None None None None None
          (Some [(''k'', JStr ''v'')]) store_two)
     = MARK_OK @ '' Context '' @ [CHR 0x27] @ ''A'' @ [CHR 0x27] @ '' updated successfully'' \<and>
   map_option
     (\<lambda>c. heap (snd (update_context clock3 ''conversation_20240305_090701'' None None None None None
                        (Some [(''k'', JStr ''v'')]) store_two)) (metadata c))
     (get_context
        (snd (update_context clock3 ''conversation_20240305_090701'' None None None None None
                (Some [(''k'', JStr ''v'')]) store_two))
        ''conversation_20240305_090701'')
     = Some [(''k'', JStr ''v'')] \<and>
   get_context
        (snd (update_context clock3 ''conversation_20240305_090701'' None None None None None
                (Some [(''k'', JStr ''v'')]) store_two))
        ''task_20240305_090702''
     = get_context store_two ''task_20240305_090702'' \<and>
   heap (snd (update_context clock3 ''conversation_20240305_090701'' None None None None None
                (Some [(''k'', JStr ''v'')]) store_two)) 2 = []"
proof -
  let ?a = "\<lparr>ctx_id = ''conversation_20240305_090701'', ctx_type = CONVERSATION, title = ''A'',
        content = ''a'', priority = MEDIUM, created_at = clock1, updated_at = clock1,
        tags = [], connections = [], metadata = 1\<rparr>"
  let ?b = "\<lparr>ctx_id = ''task_20240305_090702'', ctx_type = TASK, title = ''B'',
        content = ''b'', priority = MEDIUM, created_at = clock2, updated_at = clock2,
        tags = [], connections = [], metadata = 2\<rparr>"
  let ?calls = "[Add clock1 ''A'' ''a'' None None None None None,
        Add clock2 ''B'' ''b'' (Some TASK) None None None None]"
  have init: "ContextManager_init fromisoformat_utc (fresh_process None) = Returns (fresh_process None)"
    by (simp add: ContextManager_init_def load_contexts_def fresh_process_def)
  have r: "run ?calls (fresh_process None) = store_two"
    by (simp add: store_two_def)
  have a: "get_context (run ?calls (fresh_process None)) ''conversation_20240305_090701'' = Some ?a"
    unfolding r by (simp add: get_context_def store_two_contexts)
  have b: "get_context (run ?calls (fresh_process None)) ''task_20240305_090702'' = Some ?b"
    unfolding r by (simp add: get_context_def store_two_contexts)
  have n: "''task_20240305_090702'' \<noteq> ''conversation_20240305_090701''"
    by simp
  have changed: "map_option
     (\<lambda>c. heap (snd (update_context clock3 ''conversation_20240305_090701'' None None None None None
                        (Some [(''k'', JStr ''v'')]) store_two)) (metadata c))
     (get_context
        (snd (update_context clock3 ''conversation_20240305_090701'' None None None None None
                (Some [(''k'', JStr ''v'')]) store_two))
        ''conversation_20240305_090701'')
     = Some [(''k'', JStr ''v'')]"
    by (simp add: update_context_def get_context_def store_two_contexts store_two_heap Let_def
        save_contexts_def dict_update_def)
  note inst = update_leaves_other_items [OF init a b n, of clock3 None None None None None
      "Some [(''k'', JStr ''v'')]", unfolded r]
  show ?thesis
    using init r a [unfolded r] b [unfolded r] n changed inst
    by (simp add: store_two_heap)
qed

text \<open>
  C6, as amended. For every query, type filter and store, search returns exactly the
  items of the store (each as often as the store holds it) that have the type of the
  filter, when there is one, and for which the lowered query is a substring of the
  lowered title, of the lowered content or of some lowered tag, lowered by
  \<open>str.lower\<close>; and the result is in descending order of \<open>updated_at\<close>. When the
  query and the titles, contents and tags of the store are ASCII text, these are
  exactly the items in which the query appears as a case-insensitive substring of the
  title, of the content or of some tag.
\<close>

theorem search_lowered_and_sorted:
  "mset (search_contexts str_lower q type_filter s) =
     mset (filter (lowered_match str_lower q type_filter) (map snd (contexts s))) \<and>
   sorted_wrt (\<lambda>a b. not_before (updated_at a) (updated_at b))
     (search_contexts str_lower q type_filter s) \<and>
   ((\<forall>x. is_ascii x \<longrightarrow> str_lower x = ascii_lower x) \<and> is_ascii q \<and> ascii_texts s \<longrightarrow>
      mset (search_contexts str_lower q type_filter s) =
        mset (filter (search_matches q type_filter) (map snd (contexts s))))"
proof (intro conjI impI)
  show exact: "mset (search_contexts str_lower q type_filter s) =
     mset (filter (lowered_match str_lower q type_filter) (map snd (contexts s)))"
    by (simp add: search_contexts_def search_loop_filter mset_sorted_reverse)
  show "sorted_wrt (\<lambda>a b. not_before (updated_at a) (updated_at b))
     (search_contexts str_lower q type_filter s)"
    by (simp add: search_contexts_def not_before_dt_key sorted_reverse_descending)
  assume "(\<forall>x. is_ascii x \<longrightarrow> str_lower x = ascii_lower x) \<and> is_ascii q \<and> ascii_texts s"
  then have "filter (lowered_match str_lower q type_filter) (map snd (contexts s)) =
             filter (search_matches q type_filter) (map snd (contexts s))"
    by (intro filter_lowered_match_ascii) simp_all
  then show "mset (search_contexts str_lower q type_filter s) =
        mset (filter (search_matches q type_filter) (map snd (contexts s)))"
    by (simp only: exact)
qed

theorem search_lowered_and_sorted_witness:
  "is_ascii ''PLAN'' \<and> ascii_texts store_one \<and>
   map (\<lambda>kc. (title (snd kc), content (snd kc), tags (snd kc))) (contexts store_one) =
     [(''Plan'', ''write the plan'', [''work''])] \<and>
   str_lower_example ''PLAN'' = ''plan'' \<and> str_lower_example ''Plan'' = ''plan'' \<and>
   search_contexts str_lower_example ''PLAN'' None store_one = map snd (contexts store_one) \<and>
   search_contexts str_lower_example ''PLAN'' (Some TASK) store_one = [] \<and>
   search_contexts str_lower_example ''plum'' None store_one = [] \<and>
   mset (search_contexts str_lower_example ''PLAN'' None store_one) =
     mset (filter (search_matches ''PLAN'' None) (map snd (contexts store_one))) \<and>
   filter (search_matches ''PLAN'' None) (map snd (contexts store_one)) = map snd (contexts store_one)"
proof -
  have lib: "\<forall>x. is_ascii x \<longrightarrow> str_lower_example x = ascii_lower x"
    by (simp add: str_lower_example_ascii)
  have q: "is_ascii ''PLAN''"
    by (simp add: is_ascii_def)
  have texts: "ascii_texts store_one"
    by (simp add: ascii_texts_def store_one_contexts is_ascii_def)
  have low: "str_lower_example ''PLAN'' = ''plan''" "str_lower_example ''Plan'' = ''plan''"
    "str_lower_example ''plum'' = ''plum''" "str_lower_example ''write the plan'' = ''write the plan''"
    "str_lower_example ''work'' = ''work''"
    by (simp_all add: str_lower_example_def ODOS_def ODOSA_def ascii_lower_def lower_char_def)
  have found: "search_contexts str_lower_example ''PLAN'' None store_one = map snd (contexts store_one)"
    by (simp add: search_contexts_def store_one_contexts low sorted_reverse_def)
  have other_type: "search_contexts str_lower_example ''PLAN'' (Some TASK) store_one = []"
    by (simp add: search_contexts_def store_one_contexts low sorted_reverse_def)
  have other: "search_contexts str_lower_example ''plum'' None store_one = []"
    by (simp add: search_contexts_def store_one_contexts low sorted_reverse_def)
  have m: "mset (search_contexts str_lower_example ''PLAN'' None store_one) =
     mset (filter (search_matches ''PLAN'' None) (map snd (contexts store_one)))"
    using search_lowered_and_sorted [of str_lower_example "''PLAN''" None store_one] lib q texts
    by blast
  have "filter (search_matches ''PLAN'' None) (map snd (contexts store_one)) = map snd (contexts store_one)"
    using m unfolding found by (simp add: store_one_contexts split: if_splits)
  then show ?thesis
    using q texts low found other_type other m by (simp add: store_one_contexts)
qed

text \<open>
  C6 as stated fails where \<open>str.lower\<close> does more than fold the case of single
  letters: the store holds an item with the title \<open>ODOSA\<close>, the query \<open>ODOS\<close> is the
  beginning of that title letter by letter, and the search returns nothing, because
  the lowered query ends in a final sigma and the lowered title has none.
\<close>

theorem search_misses_literal_substring:
  "map (\<lambda>kc. title (snd kc)) (contexts store_greek) = [ODOSA] \<and>
   ODOSA = ODOS @ [CHR 0xCE, CHR 0x91] \<and>
   str_lower_example ODOS = odos_lower \<and> str_lower_example ODOSA = odosa_lower \<and>
   filter (search_matches ODOS None) (map snd (contexts store_greek)) = map snd (contexts store_greek) \<and>
   search_contexts str_lower_example ODOS None store_greek = []"
proof -
  have split: "ODOSA = [] @ ODOS @ [CHR 0xCE, CHR 0x91]"
    by (simp add: ODOS_def ODOSA_def)
  have "case_insensitive_substring ODOS ODOSA"
    unfolding split by (rule literal_substring)
  then have matches: "filter (search_matches ODOS None) (map snd (contexts store_greek)) =
      map snd (contexts store_greek)"
    by (simp add: store_greek_contexts search_matches_def)
  have low: "str_lower_example ODOS = odos_lower" "str_lower_example ODOSA = odosa_lower"
    "str_lower_example ''a street'' = ''a street''"
    by (simp_all add: str_lower_example_def ODOS_def ODOSA_def ascii_lower_def lower_char_def)
  have "search_contexts str_lower_example ODOS None store_greek = []"
    by (simp add: search_contexts_def store_greek_contexts low sorted_reverse_def
        odos_lower_def odosa_lower_def)
  then show ?thesis
    using split matches low by (simp add: store_greek_contexts)
qed

text \<open>
  C9, as amended. For every store that holds an item, stats returns the report of the
  total, the counts per type and per priority and the three items updated last, in
  descending order of \<open>updated_at\<close>; for the empty store it returns the message that
  the store is empty. The file on disk has no part in the result.
\<close>

theorem stats_report_unless_empty:
  "get_context_stats s =
     (if contexts s = [] then MARK_STATS @ '' Context store is empty''
      else stats_report (map snd (contexts s))) \<and>
   get_context_stats (s\<lparr>disk := d\<rparr>) = get_context_stats s"
  unfolding get_context_stats_def Let_def stats_report_def type_counts_sorted priority_counts_sorted
  by simp

text \<open>
  C9 as stated fails at the empty store: stats returns the message that the store is
  empty, which is not the report with the total 0.
\<close>

theorem stats_empty_store_counterexample:
  "get_context_stats (fresh_process None) = MARK_STATS @ '' Context store is empty'' \<and>
   stats_report (map snd (contexts (fresh_process None))) =
     join NL [MARK_STATS @ '' Context Store Statistics'' @ NL, ''**Total Contexts:** 0'',
              NL @ ''**By Type:**'', NL @ ''**By Priority:**'', NL @ ''**Most Recent:**''] \<and>
   get_context_stats (fresh_process None) \<noteq> stats_report (map snd (contexts (fresh_process None)))"
  by (simp add: get_context_stats_def stats_report_def fresh_process_def counts_by_type_def counts_by_priority_def TYPES_BY_NAME_def
      PRIORITIES_BY_NAME_def str_nat.simps digit_char_def sorted_reverse_def MARK_STATS_def NL_def)

text \<open>
  C7, as amended. After any run of add and update calls from the empty store, with
  clock readings that do not go backwards from one call to the next, every item has
  \<open>updated_at\<close> \<open>\<ge>\<close> \<open>created_at\<close>. In any state, an update (of any item, with any
  arguments) leaves the \<open>id\<close> and the \<open>created_at\<close> of every item as they were, and
  an add leaves every item under another ID than its own as it was.
\<close>

theorem timestamps_ordered_id_created_fixed:
  assumes "sorted (map (\<lambda>c. dt_key (call_time c)) calls)"
  shows "(\<forall>kc \<in> set (contexts (run calls (fresh_process d))).
            not_before (updated_at (snd kc)) (created_at (snd kc))) \<and>
         (get_context s k = Some x \<longrightarrow>
            (\<exists>y. get_context (exec (Update now i t c p tg cn md) s) k = Some y \<and>
                 ctx_id y = ctx_id x \<and> created_at y = created_at x)) \<and>
         (get_context s k = Some x \<and>
          k \<noteq> context_id_of (case ty of None \<Rightarrow> CONVERSATION | Some v \<Rightarrow> v) now2 \<longrightarrow>
            get_context (exec (Add now2 title2 content2 ty p2 tg2 cn2 md2) s) k = Some x)"
proof (intro conjI impI)
  have "\<forall>c \<in> set calls. (0, 0, 0, 0, 0, 0, 0) \<le> dt_key (call_time c)"
    by (simp add: dt_key_def less_eq_prod_def)
  then obtain t' where "timely (run calls (fresh_process d)) t'"
    using run_timely [OF assms timely_fresh] by blast
  then show "\<forall>kc \<in> set (contexts (run calls (fresh_process d))).
            not_before (updated_at (snd kc)) (created_at (snd kc))"
    by (simp add: timely_def not_before_dt_key)
next
  assume "get_context s k = Some x"
  then show "\<exists>y. get_context (exec (Update now i t c p tg cn md) s) k = Some y \<and>
                 ctx_id y = ctx_id x \<and> created_at y = created_at x"
    by (rule update_keeps_id_created)
next
  assume "get_context s k = Some x \<and>
          k \<noteq> context_id_of (case ty of None \<Rightarrow> CONVERSATION | Some v \<Rightarrow> v) now2"
  then show "get_context (exec (Add now2 title2 content2 ty p2 tg2 cn2 md2) s) k = Some x"
    using add_keeps_other_items [of k ty now2 title2 content2 p2 tg2 cn2 md2 s] by simp
qed

theorem timestamps_ordered_id_created_fixed_witness:
  "sorted (map (\<lambda>c. dt_key (call_time c)) calls_example) \<and>
   (''conversation_20240305_090701'',
       \<lparr>ctx_id = ''conversation_20240305_090701'', ctx_type = CONVERSATION, title = ''A2'',
        content = ''a'', priority = MEDIUM, created_at = clock1, updated_at = clock3,
        tags = [], connections = [], metadata = 1\<rparr>)
     \<in> set (contexts (run calls_example (fresh_process None))) \<and>
   not_before clock3 clock1 \<and>
   get_context store_two ''task_20240305_090702'' =
     Some \<lparr>ctx_id = ''task_20240305_090702'', ctx_type = TASK, title = ''B'',
        content = ''b'', priority = MEDIUM, created_at = clock2, updated_at = clock2,
        tags = [], connections = [], metadata = 2\<rparr> \<and>
   (\<exists>y. get_context (exec (Update clock3 ''task_20240305_090702'' (Some ''B2'') None (Some HIGH) None None None)
                       store_two) ''task_20240305_090702'' = Some y \<and>
        ctx_id y = ''task_20240305_090702'' \<and> created_at y = clock2) \<and>
   ''task_20240305_090702'' \<noteq> context_id_of (case Some TASK of None \<Rightarrow> CONVERSATION | Some v \<Rightarrow> v) clock3 \<and>
   get_context (exec (Add clock3 ''C'' ''c'' (Some TASK) None None None None) store_two)
       ''task_20240305_090702'' =
     Some \<lparr>ctx_id = ''task_20240305_090702'', ctx_type = TASK, title = ''B'',
        content = ''b'', priority = MEDIUM, created_at = clock2, updated_at = clock2,
        tags = [], connections = [], metadata = 2\<rparr>"
proof -
  let ?a = "\<lparr>ctx_id = ''conversation_20240305_090701'', ctx_type = CONVERSATION, title = ''A2'',
        content = ''a'', priority = MEDIUM, created_at = clock1, updated_at = clock3,
        tags = [], connections = [], metadata = 1\<rparr>"
  let ?b = "\<lparr>ctx_id = ''task_20240305_090702'', ctx_type = TASK, title = ''B'',
        content = ''b'', priority = MEDIUM, created_at = clock2, updated_at = clock2,
        tags = [], connections = [], metadata = 2\<rparr>"
  have h: "sorted (map (\<lambda>c. dt_key (call_time c)) calls_example)"
    by (simp add: calls_example_def dt_key_def clock1_def clock2_def clock3_def)
  have mem: "(''conversation_20240305_090701'', ?a) \<in> set (contexts (run calls_example (fresh_process None)))"
    by (simp add: run_calls_example)
  have g: "get_context store_two ''task_20240305_090702'' = Some ?b"
    by (simp add: get_context_def store_two_contexts)
  have n: "''task_20240305_090702'' \<noteq> context_id_of (case Some TASK of None \<Rightarrow> CONVERSATION | Some v \<Rightarrow> v) clock3"
    by (simp add: run_defs)
  note inst = timestamps_ordered_id_created_fixed [OF h, of None store_two "''task_20240305_090702''" ?b
      clock3 "''task_20240305_090702''" "Some ''B2''" None "Some HIGH" None None None "Some TASK" clock3 "''C''" "''c''" None None None None]
  from inst mem have "not_before (updated_at ?a) (created_at ?a)"
    by fastforce
  moreover from inst g have "\<exists>y. get_context (exec (Update clock3 ''task_20240305_090702'' (Some ''B2'') None (Some HIGH) None None None)
                       store_two) ''task_20240305_090702'' = Some y \<and>
        ctx_id y = ''task_20240305_090702'' \<and> created_at y = clock2"
    by simp
  moreover from inst g n have "get_context (exec (Add clock3 ''C'' ''c'' (Some TASK) None None None None) store_two)
       ''task_20240305_090702'' = Some ?b"
    by blast
  ultimately show ?thesis
    using h mem g n by simp
qed

text \<open>
  C7 as stated fails when the clock is set back between two calls: an item is added
  at 09:08:30 and updated at a reading of 09:07:01, and then its \<open>updated_at\<close> is
  before its \<open>created_at\<close>.
\<close>

theorem clock_set_back_counterexample:
  "map (\<lambda>kc. (fst kc, created_at (snd kc), updated_at (snd kc)))
       (contexts (run calls_backwards (fresh_process None)))
     = [(''conversation_20240305_090830'', clock3, clock1)] \<and>
   \<not> not_before clock1 clock3 \<and>
   \<not> dt_key clock3 \<le> dt_key clock1"
  by (simp add: run_calls_backwards not_before_def dt_key_def clock1_def clock3_def
      less_eq_prod_def)

text \<open>
  C2. Let a store have distinct keys (it is a dict) and timestamps that the parser
  \<open>fromisoformat\<close> reads back from their \<open>isoformat\<close> strings, as the library's
  parser does. Then a store instance constructed in any process that finds the saved
  file holds the same mapping: the same keys in the same order, and under each key an
  item equal to the saved one in every field, timestamps to the microsecond and
  metadata as mappings.
\<close>

theorem save_then_load_same_mapping:
  assumes "distinct (map fst (contexts s))"
    and "\<forall>kc \<in> set (contexts s).
           fromisoformat (isoformat (created_at (snd kc))) = Some (created_at (snd kc)) \<and>
           fromisoformat (isoformat (updated_at (snd kc))) = Some (updated_at (snd kc))"
    and "disk p = disk (save_contexts s)"
  shows "\<exists>s'. ContextManager_init fromisoformat p = Returns s' \<and> same_mapping s s'"
proof -
  let ?p = "p\<lparr>contexts := []\<rparr>"
  obtain cs' s' where
    r: "from_items fromisoformat (map (\<lambda>kc. (fst kc, to_dict (heap s) (snd kc))) (contexts s)) [] ?p
          = Returns ([] @ cs', s')"
    and all: "list_all2 (\<lambda>kc kc'. fst kc' = fst kc \<and> same_item (heap s) (snd kc) (heap s') (snd kc'))
                (contexts s) cs'"
    using from_items_saved [OF assms(1) _ assms(2), of "[]" "heap s" ?p] by auto
  have "ContextManager_init fromisoformat p = Returns (s'\<lparr>contexts := cs'\<rparr>)"
    using r assms(3) by (simp add: ContextManager_init_def load_contexts_def save_contexts_def)
  moreover have "same_mapping s (s'\<lparr>contexts := cs'\<rparr>)"
    using all by (simp add: same_mapping_def)
  ultimately show ?thesis by blast
qed

theorem save_then_load_same_mapping_witness:
  "distinct (map fst (contexts store_one)) \<and>
   map (\<lambda>kc. (created_at (snd kc), updated_at (snd kc))) (contexts store_one) = [(clock1, clock1)] \<and>
   fromisoformat_utc (isoformat clock1) = Some clock1 \<and>
   disk (fresh_process (disk (save_contexts store_one))) = disk (save_contexts store_one) \<and>
   (\<exists>s'. ContextManager_init fromisoformat_utc (fresh_process (disk (save_contexts store_one))) = Returns s' \<and>
         same_mapping store_one s')"
proof -
  have h1: "distinct (map fst (contexts store_one))"
    by (simp add: store_one_contexts)
  have ts: "map (\<lambda>kc. (created_at (snd kc), updated_at (snd kc))) (contexts store_one) = [(clock1, clock1)]"
    by (simp add: store_one_contexts)
  have h2: "\<forall>kc \<in> set (contexts store_one).
           fromisoformat_utc (isoformat (created_at (snd kc))) = Some (created_at (snd kc)) \<and>
           fromisoformat_utc (isoformat (updated_at (snd kc))) = Some (updated_at (snd kc))"
    by (simp add: store_one_contexts fromisoformat_clock1)
  have h3: "disk (fresh_process (disk (save_contexts store_one))) = disk (save_contexts store_one)"
    by (simp add: fresh_process_def)
  show ?thesis
    using h1 ts fromisoformat_clock1 h3 save_then_load_same_mapping [OF h1 h2 h3] by blast
qed

text \<open>
  C8. Constructing the store never raises. Without a file the mapping is empty. With a
  file, whenever the body of the \<open>try\<close> raises the mapping is empty: so it is when
  \<open>json.load\<close> fails, when the value read is not an object, and when some entry has
  an unknown type or priority value or a timestamp that the parser does not read.
\<close>

theorem construction_never_fails:
  "ContextManager_init fromisoformat p \<noteq> Raises e \<and>
   (disk p = None \<longrightarrow> ContextManager_init fromisoformat p = Returns (p\<lparr>contexts := []\<rparr>)) \<and>
   (disk p = Some f \<and> load_try fromisoformat f (p\<lparr>contexts := []\<rparr>) = Raises e' \<longrightarrow>
      ContextManager_init fromisoformat p = Returns (p\<lparr>contexts := []\<rparr>)) \<and>
   (disk p = Some Unparseable \<longrightarrow> ContextManager_init fromisoformat p = Returns (p\<lparr>contexts := []\<rparr>)) \<and>
   (disk p = Some (Parsed j) \<and> (\<forall>items. j \<noteq> JDict items) \<longrightarrow>
      ContextManager_init fromisoformat p = Returns (p\<lparr>contexts := []\<rparr>)) \<and>
   (disk p = Some (Parsed (JDict items)) \<and> (k, d) \<in> set items \<and>
    (unknown_type d \<or> unknown_priority d \<or> unparseable_timestamp fromisoformat d) \<longrightarrow>
      ContextManager_init fromisoformat p = Returns (p\<lparr>contexts := []\<rparr>))"
proof (intro conjI impI)
  show "ContextManager_init fromisoformat p \<noteq> Raises e"
    by (simp add: ContextManager_init_def load_contexts_def split: option.splits outcome.splits)
  show "ContextManager_init fromisoformat p = Returns (p\<lparr>contexts := []\<rparr>)" if "disk p = None"
    using that by (simp add: ContextManager_init_def load_contexts_def)
  show "ContextManager_init fromisoformat p = Returns (p\<lparr>contexts := []\<rparr>)"
    if "disk p = Some f \<and> load_try fromisoformat f (p\<lparr>contexts := []\<rparr>) = Raises e'"
    using that by (simp add: load_contexts_raised)
  show "ContextManager_init fromisoformat p = Returns (p\<lparr>contexts := []\<rparr>)"
    if "disk p = Some Unparseable"
    using that by (simp add: ContextManager_init_def load_contexts_def)
  show "ContextManager_init fromisoformat p = Returns (p\<lparr>contexts := []\<rparr>)"
    if "disk p = Some (Parsed j) \<and> (\<forall>items. j \<noteq> JDict items)"
    using that by (cases j) (simp_all add: ContextManager_init_def load_contexts_def)
  show "ContextManager_init fromisoformat p = Returns (p\<lparr>contexts := []\<rparr>)"
    if bad: "disk p = Some (Parsed (JDict items)) \<and> (k, d) \<in> set items \<and>
      (unknown_type d \<or> unknown_priority d \<or> unparseable_timestamp fromisoformat d)"
  proof -
    have "\<exists>e. from_items fromisoformat items [] (p\<lparr>contexts := []\<rparr>) = Raises e"
      using bad by (intro from_items_raises [of "(k, d)"]) (auto intro: bad_item_raises)
    then obtain e'' where "load_try fromisoformat (Parsed (JDict items)) (p\<lparr>contexts := []\<rparr>) = Raises e''"
      by auto
    with bad show ?thesis by (simp add: load_contexts_raised)
  qed
qed

theorem construction_never_fails_witness:
  "disk (fresh_process None) = None \<and>
   ContextManager_init fromisoformat_utc (fresh_process None) = Returns ((fresh_process None)\<lparr>contexts := []\<rparr>) \<and>
   disk (fresh_process (Some Unparseable)) = Some Unparseable \<and>
   ContextManager_init fromisoformat_utc (fresh_process (Some Unparseable)) =
     Returns ((fresh_process (Some Unparseable))\<lparr>contexts := []\<rparr>) \<and>
   disk (fresh_process (Some bad_file)) = Some (Parsed (JDict [(''note_1'', bad_item)])) \<and>
   (''note_1'', bad_item) \<in> set [(''note_1'', bad_item)] \<and>
   unknown_type bad_item \<and>
   ContextManager_init fromisoformat_utc (fresh_process (Some bad_file)) =
     Returns ((fresh_process (Some bad_file))\<lparr>contexts := []\<rparr>) \<and>
   ContextManager_init fromisoformat_utc (fresh_process (Some bad_file)) \<noteq> Raises ValueError"
proof -
  have a: "disk (fresh_process None) = None"
    and b: "disk (fresh_process (Some Unparseable)) = Some Unparseable"
    and c: "disk (fresh_process (Some bad_file)) = Some (Parsed (JDict [(''note_1'', bad_item)]))"
    by (simp_all add: fresh_process_def bad_file_def)
  have m: "(''note_1'', bad_item) \<in> set [(''note_1'', bad_item)]" by simp
  note i1 = construction_never_fails [of fromisoformat_utc "fresh_process None"]
  note i2 = construction_never_fails [of fromisoformat_utc "fresh_process (Some Unparseable)"]
  note i3 = construction_never_fails [of fromisoformat_utc "fresh_process (Some bad_file)" ValueError _ _ _
      "[(''note_1'', bad_item)]" "''note_1''" bad_item]
  from i1 a have r1: "ContextManager_init fromisoformat_utc (fresh_process None) =
      Returns ((fresh_process None)\<lparr>contexts := []\<rparr>)"
    by blast
  from i2 b have r2: "ContextManager_init fromisoformat_utc (fresh_process (Some Unparseable)) =
     Returns ((fresh_process (Some Unparseable))\<lparr>contexts := []\<rparr>)"
    by blast
  from i3 c m unknown_type_bad_item
  have r3: "ContextManager_init fromisoformat_utc (fresh_process (Some bad_file)) =
     Returns ((fresh_process (Some bad_file))\<lparr>contexts := []\<rparr>)"
    by blast
  from i3 have r4: "ContextManager_init fromisoformat_utc (fresh_process (Some bad_file)) \<noteq> Raises ValueError"
    by blast
  show ?thesis
    using a b c m unknown_type_bad_item r1 r2 r3 r4 by blast
qed

end
